theory Spec2Isabelle
  imports Complex_Main
begin

section \<open>Python floats\<close>

text \<open>
  The controller of \<^verbatim>\<open>src/mapper.py\<close> computes with Python floats, which are IEEE-754
  binary64 numbers. A float is modelled by its value: NaN, an infinity, or a finite
  real. The two zeros are identified (the program never observes the sign of a zero).
  Arithmetic rounds the exact result to the nearest binary64 number, ties to even, as
  CPython does; comparisons are exact, and every comparison with NaN is false.
\<close>

datatype pyfloat = NaN | NInf | Fin real | PInf

text \<open>\<^verbatim>\<open>int.bit_length\<close>: the number of binary digits of a positive integer.\<close>

function bit_length :: "int \<Rightarrow> nat" where
  "bit_length n = (if n \<le> 0 then 0 else Suc (bit_length (n div 2)))"
  by pat_completeness auto
termination
  by (relation "measure nat") auto

declare bit_length.simps [simp del]

definition round_half_even :: "real \<Rightarrow> int" where
  "round_half_even x =
     (let f = \<lfloor>x\<rfloor>; d = x - of_int f in
      if d < 1/2 then f else if 1/2 < d then f + 1 else if even f then f else f + 1)"

definition pow2 :: "int \<Rightarrow> real" where
  "pow2 e = (if 0 \<le> e then 2 ^ nat e else 1 / 2 ^ nat (- e))"

text \<open>The exponent \<open>e\<close> of a positive real \<open>x\<close>: \<open>2^e \<le> x < 2^(e+1)\<close>.\<close>

definition float_exponent :: "real \<Rightarrow> int" where
  "float_exponent x =
     (if 1 \<le> x then int (bit_length \<lfloor>x\<rfloor>) - 1
      else - int (bit_length (\<lceil>1 / x\<rceil> - 1)))"

text \<open>
  Rounding to binary64: 53 significant bits, the exponent of a normal number between
  -1022 and 1023, subnormal numbers on the grid of \<open>2^-1074\<close>, overflow to an infinity.
\<close>

definition round64 :: "real \<Rightarrow> pyfloat" where
  "round64 x =
     (if x = 0 then Fin 0
      else let q = pow2 (max (float_exponent \<bar>x\<bar>) (- 1022) - 52);
               y = of_int (round_half_even (x / q)) * q
           in if pow2 1024 \<le> \<bar>y\<bar> then (if x < 0 then NInf else PInf) else Fin y)"

definition isnan :: "pyfloat \<Rightarrow> bool" where
  "isnan x = (x = NaN)"

fun flt :: "pyfloat \<Rightarrow> pyfloat \<Rightarrow> bool" where
  "flt NaN _ = False"
| "flt _ NaN = False"
| "flt (Fin a) (Fin b) = (a < b)"
| "flt NInf NInf = False"
| "flt NInf _ = True"
| "flt PInf _ = False"
| "flt (Fin a) PInf = True"
| "flt (Fin a) NInf = False"

definition fgt :: "pyfloat \<Rightarrow> pyfloat \<Rightarrow> bool" where
  "fgt a b = flt b a"

definition fle :: "pyfloat \<Rightarrow> pyfloat \<Rightarrow> bool" where
  "fle a b = (a \<noteq> NaN \<and> b \<noteq> NaN \<and> (a = b \<or> flt a b))"

definition fge :: "pyfloat \<Rightarrow> pyfloat \<Rightarrow> bool" where
  "fge a b = fle b a"

fun fneg :: "pyfloat \<Rightarrow> pyfloat" where
  "fneg NaN = NaN"
| "fneg NInf = PInf"
| "fneg PInf = NInf"
| "fneg (Fin a) = Fin (- a)"

fun fabs :: "pyfloat \<Rightarrow> pyfloat" where
  "fabs NaN = NaN"
| "fabs NInf = PInf"
| "fabs PInf = PInf"
| "fabs (Fin a) = Fin \<bar>a\<bar>"

fun fadd :: "pyfloat \<Rightarrow> pyfloat \<Rightarrow> pyfloat" where
  "fadd NaN _ = NaN"
| "fadd _ NaN = NaN"
| "fadd (Fin a) (Fin b) = round64 (a + b)"
| "fadd PInf NInf = NaN"
| "fadd NInf PInf = NaN"
| "fadd PInf _ = PInf"
| "fadd NInf _ = NInf"
| "fadd (Fin a) PInf = PInf"
| "fadd (Fin a) NInf = NInf"

definition fsub :: "pyfloat \<Rightarrow> pyfloat \<Rightarrow> pyfloat" where
  "fsub a b = fadd a (fneg b)"

fun fmul :: "pyfloat \<Rightarrow> pyfloat \<Rightarrow> pyfloat" where
  "fmul NaN _ = NaN"
| "fmul _ NaN = NaN"
| "fmul (Fin a) (Fin b) = round64 (a * b)"
| "fmul (Fin a) PInf = (if a = 0 then NaN else if 0 < a then PInf else NInf)"
| "fmul (Fin a) NInf = (if a = 0 then NaN else if 0 < a then NInf else PInf)"
| "fmul PInf (Fin b) = (if b = 0 then NaN else if 0 < b then PInf else NInf)"
| "fmul NInf (Fin b) = (if b = 0 then NaN else if 0 < b then NInf else PInf)"
| "fmul PInf PInf = PInf"
| "fmul NInf NInf = PInf"
| "fmul PInf NInf = NInf"
| "fmul NInf PInf = NInf"

section \<open>The node and its messages\<close>

datatype error = ZeroDivisionError | IndexError | ValueError

text \<open>Sequencing of computations that may raise: the first exception ends the
  computation.\<close>

definition and_then :: "error + 'a \<Rightarrow> ('a \<Rightarrow> error + 'b) \<Rightarrow> error + 'b" where
  "and_then m f = (case m of Inl e \<Rightarrow> Inl e | Inr x \<Rightarrow> f x)"

text \<open>The fields of \<^verbatim>\<open>sensor_msgs/LaserScan\<close> that the node reads.\<close>

record laser_scan =
  ranges :: "pyfloat list"
  range_max :: pyfloat

text \<open>\<^verbatim>\<open>geometry_msgs/Twist\<close>: the node writes \<^verbatim>\<open>linear.x\<close> and \<^verbatim>\<open>angular.z\<close>;
  the other four components keep the 0.0 of the constructor.\<close>

record twist =
  linear_x :: pyfloat
  angular_z :: pyfloat

definition Twist :: twist where
  "Twist = \<lparr>linear_x = Fin 0, angular_z = Fin 0\<rparr>"

datatype mode = EXPLORING | BACKING_UP | TURNING

text \<open>The attributes of \<^verbatim>\<open>SmartSafeMapper\<close> (publisher, subscription, timer and
  logger are the transport and are left out).\<close>

record mapper =
  lidar_data :: "laser_scan option"
  safe_distance :: pyfloat
  min_distance :: pyfloat
  forward_speed :: pyfloat
  turn_speed :: pyfloat
  backup_speed :: pyfloat
  backup_time :: pyfloat
  state :: mode

text \<open>\<^verbatim>\<open>__init__\<close>\<close>

definition init :: mapper where
  "init = \<lparr>lidar_data = None,
           safe_distance = round64 (7/10),
           min_distance = round64 (3/10),
           forward_speed = round64 (12/100),
           turn_speed = round64 (8/10),
           backup_speed = fneg (round64 (1/10)),
           backup_time = Fin 0,
           state = EXPLORING\<rparr>"

definition lidar_callback :: "mapper \<Rightarrow> laser_scan \<Rightarrow> mapper" where
  "lidar_callback self msg = self\<lparr>lidar_data := Some msg\<rparr>"

section \<open>\<^verbatim>\<open>get_safe_directions\<close>\<close>

text \<open>The dictionary that \<^verbatim>\<open>get_safe_directions\<close> returns.\<close>

record sectors =
  front :: pyfloat
  left :: pyfloat
  right :: pyfloat
  left_better :: bool
  right_better :: bool
  equal_space :: bool

text \<open>The index lists before the modulo: \<^verbatim>\<open>list(range(0, 30)) + list(range(330, 360))\<close>,
  \<^verbatim>\<open>list(range(60, 120))\<close>, \<^verbatim>\<open>list(range(240, 300))\<close>. All indices are
  non-negative, so they are naturals.\<close>

definition front_indices :: "nat list" where
  "front_indices = [0..<30] @ [330..<360]"

definition left_indices :: "nat list" where
  "left_indices = [60..<120]"

definition right_indices :: "nat list" where
  "right_indices = [240..<300]"

text \<open>\<^verbatim>\<open>i % n\<close> on non-negative integers.\<close>

definition py_mod :: "nat \<Rightarrow> nat \<Rightarrow> error + nat" where
  "py_mod i n = (if n = 0 then Inl ZeroDivisionError else Inr (i mod n))"

text \<open>\<^verbatim>\<open>[i % num_ranges for i in indices]\<close>\<close>

fun mod_indices :: "nat list \<Rightarrow> nat \<Rightarrow> error + nat list" where
  "mod_indices [] n = Inr []"
| "mod_indices (i # rest) n =
     and_then (py_mod i n) (\<lambda>j. and_then (mod_indices rest n) (\<lambda>js. Inr (j # js)))"

text \<open>\<^verbatim>\<open>xs[i]\<close> for a non-negative index.\<close>

definition py_index :: "'a list \<Rightarrow> nat \<Rightarrow> error + 'a" where
  "py_index xs i = (if i < length xs then Inr (xs ! i) else Inl IndexError)"

text \<open>The builtin \<^verbatim>\<open>min\<close> on a list: the first element, replaced by each later one
  that compares smaller.\<close>

fun min_loop :: "pyfloat \<Rightarrow> pyfloat list \<Rightarrow> pyfloat" where
  "min_loop m [] = m"
| "min_loop m (x # xs) = min_loop (if flt x m then x else m) xs"

definition py_min :: "pyfloat list \<Rightarrow> error + pyfloat" where
  "py_min xs = (case xs of [] \<Rightarrow> Inl ValueError | x # rest \<Rightarrow> Inr (min_loop x rest))"

text \<open>The loop of \<^verbatim>\<open>get_sector_min\<close> over the indices; \<open>valid_ranges\<close> is the list
  built so far.\<close>

fun sector_loop :: "laser_scan \<Rightarrow> nat list \<Rightarrow> pyfloat list \<Rightarrow> error + pyfloat list" where
  "sector_loop d [] valid_ranges = Inr valid_ranges"
| "sector_loop d (idx # rest) valid_ranges =
     (if idx < length (ranges d) then
        and_then (py_index (ranges d) idx)
          (\<lambda>r. if \<not> isnan r \<and> fgt r (round64 (1/10)) \<and> flt r (range_max d)
               then sector_loop d rest (valid_ranges @ [r])
               else sector_loop d rest valid_ranges)
      else sector_loop d rest valid_ranges)"

definition get_sector_min :: "laser_scan \<Rightarrow> nat list \<Rightarrow> error + pyfloat" where
  "get_sector_min d indices =
     and_then (sector_loop d indices [])
       (\<lambda>valid_ranges. if valid_ranges \<noteq> [] then py_min valid_ranges else Inr (range_max d))"

definition get_safe_directions :: "mapper \<Rightarrow> error + sectors option" where
  "get_safe_directions self =
     (case lidar_data self of
        None \<Rightarrow> Inr None
      | Some d \<Rightarrow>
          (let num_ranges = length (ranges d) in
           and_then (mod_indices front_indices num_ranges) (\<lambda>fi.
           and_then (mod_indices left_indices num_ranges) (\<lambda>li.
           and_then (mod_indices right_indices num_ranges) (\<lambda>ri.
           and_then (get_sector_min d fi) (\<lambda>front_min.
           and_then (get_sector_min d li) (\<lambda>left_min.
           and_then (get_sector_min d ri) (\<lambda>right_min.
             let lb = fgt (fsub left_min right_min) (round64 (3/10));
                 rb = fgt (fsub right_min left_min) (round64 (3/10))
             in Inr (Some \<lparr>front = front_min, left = left_min, right = right_min,
                            left_better = lb, right_better = rb,
                            equal_space = (\<not> lb \<and> \<not> rb)\<rparr>)))))))))"

section \<open>\<^verbatim>\<open>control_loop\<close>\<close>

text \<open>
  One call of the timer callback. \<open>rnd\<close> is the value that \<^verbatim>\<open>random.random()\<close>
  returns if this call reaches it. The result is the message published (if any) and
  the node afterwards, or the exception that leaves the callback; an exception is raised
  before any attribute is written. Logging has no effect on the node and is left out.
\<close>

definition control_loop :: "mapper \<Rightarrow> pyfloat \<Rightarrow> error + (twist option \<times> mapper)" where
  "control_loop self rnd =
     (if lidar_data self = None then Inr (None, self)
      else case get_safe_directions self of
        Inl e \<Rightarrow> Inl e
      | Inr None \<Rightarrow> Inr (None, self)
      | Inr (Some sectors) \<Rightarrow>
          let cmd_vel = Twist; front_distance = front sectors in
          (case state self of
             EXPLORING \<Rightarrow>
               if flt front_distance (min_distance self) then
                 Inr (Some (cmd_vel\<lparr>linear_x := backup_speed self, angular_z := Fin 0\<rparr>),
                      self\<lparr>state := BACKING_UP, backup_time := Fin 0\<rparr>)
               else if flt front_distance (safe_distance self) then
                 Inr (Some (cmd_vel\<lparr>linear_x := fmul (forward_speed self) (round64 (3/10)),
                                    angular_z :=
                                      (if left_better sectors then turn_speed self
                                       else if right_better sectors then fneg (turn_speed self)
                                       else if fgt rnd (round64 (5/10)) then turn_speed self
                                       else fneg (turn_speed self))\<rparr>),
                      self)
               else
                 Inr (Some (cmd_vel\<lparr>linear_x := forward_speed self, angular_z := Fin 0\<rparr>), self)
           | BACKING_UP \<Rightarrow>
               let self1 = self\<lparr>backup_time := fadd (backup_time self) (round64 (1/10))\<rparr>;
                   cmd = cmd_vel\<lparr>linear_x := backup_speed self1, angular_z := Fin 0\<rparr>
               in if fge (backup_time self1) (round64 (15/10))
                  then Inr (Some cmd, self1\<lparr>state := TURNING\<rparr>)
                  else Inr (Some cmd, self1)
           | TURNING \<Rightarrow>
               let self1 = self\<lparr>backup_time := fadd (backup_time self) (round64 (1/10))\<rparr>;
                   cmd = cmd_vel\<lparr>linear_x := Fin 0,
                                 angular_z :=
                                   (if left_better sectors then turn_speed self1
                                    else if right_better sectors then fneg (turn_speed self1)
                                    else if fgt rnd (round64 (5/10)) then turn_speed self1
                                    else fneg (turn_speed self1))\<rparr>
               in if fge (backup_time self1) (round64 (35/10))
                  then Inr (Some cmd, self1\<lparr>state := EXPLORING\<rparr>)
                  else Inr (Some cmd, self1)))"

text \<open>
  What \<^verbatim>\<open>rclpy.spin\<close> does with the node: the executor runs one callback at a time,
  a scan delivery or a timer tick. The run stops at the first exception.
\<close>

datatype event = Scan laser_scan | Tick pyfloat

fun spin :: "mapper \<Rightarrow> event list \<Rightarrow> error + (twist list \<times> mapper)" where
  "spin self [] = Inr ([], self)"
| "spin self (Scan msg # evs) = spin (lidar_callback self msg) evs"
| "spin self (Tick rnd # evs) =
     (case control_loop self rnd of
        Inl e \<Rightarrow> Inl e
      | Inr (out, self') \<Rightarrow>
          (case spin self' evs of
             Inl e \<Rightarrow> Inl e
           | Inr (cmds, self'') \<Rightarrow>
               Inr ((case out of None \<Rightarrow> cmds | Some c \<Rightarrow> c # cmds), self'')))"

section \<open>Notions used in the statements\<close>

text \<open>A sample that \<^verbatim>\<open>get_sector_min\<close> keeps: not NaN, above the 0.1 noise floor and
  below \<open>range_max\<close>.\<close>

definition valid_range :: "laser_scan \<Rightarrow> pyfloat \<Rightarrow> bool" where
  "valid_range d r = (\<not> isnan r \<and> fgt r (round64 (1/10)) \<and> flt r (range_max d))"

text \<open>The valid samples of a sector, in the order of its indices.\<close>

definition valid_samples :: "laser_scan \<Rightarrow> nat list \<Rightarrow> pyfloat list" where
  "valid_samples d indices =
     filter (valid_range d) (map (\<lambda>i. ranges d ! i) (filter (\<lambda>i. i < length (ranges d)) indices))"

text \<open>The sector of a scan that a list of raw indices selects.\<close>

definition sector_of :: "laser_scan \<Rightarrow> nat list \<Rightarrow> nat list" where
  "sector_of d indices = map (\<lambda>i. i mod length (ranges d)) indices"

text \<open>What a sector distance is: \<open>range_max\<close> when the sector has no valid sample,
  otherwise a valid sample of the sector that no other valid sample is below; such a
  value lies strictly between 0.1 and \<open>range_max\<close>.\<close>

definition sector_min_ok :: "laser_scan \<Rightarrow> nat list \<Rightarrow> pyfloat \<Rightarrow> bool" where
  "sector_min_ok d indices m =
     (if valid_samples d indices = [] then m = range_max d
      else m \<in> set (valid_samples d indices) \<and>
           list_all (\<lambda>v. fle m v) (valid_samples d indices) \<and>
           fgt m (round64 (1/10)) \<and> flt m (range_max d))"

text \<open>The parameters of the node are those that \<^verbatim>\<open>__init__\<close> sets; no method
  assigns them again, so every node that \<^verbatim>\<open>spin\<close> reaches is configured.\<close>

definition configured :: "mapper \<Rightarrow> bool" where
  "configured self =
     (safe_distance self = round64 (7/10) \<and>
      min_distance self = round64 (3/10) \<and>
      forward_speed self = round64 (12/100) \<and>
      turn_speed self = round64 (8/10) \<and>
      backup_speed self = fneg (round64 (1/10)))"

text \<open>Scans used as examples: \<open>n\<close> samples that all read \<open>x\<close>.\<close>

definition uniform_scan :: "nat \<Rightarrow> pyfloat \<Rightarrow> pyfloat \<Rightarrow> laser_scan" where
  "uniform_scan n x M = \<lparr>ranges = replicate n x, range_max = M\<rparr>"

text \<open>The timer after \<open>k\<close> ticks since it was set to 0: \<open>k\<close> times
  \<^verbatim>\<open>self.backup_time += 0.1\<close>, in float arithmetic.\<close>

primrec timer_after :: "nat \<Rightarrow> pyfloat" where
  "timer_after 0 = Fin 0"
| "timer_after (Suc k) = fadd (timer_after k) (round64 (1/10))"

definition phase_after :: "nat \<Rightarrow> mode" where
  "phase_after k = (if k < 15 then BACKING_UP else if k < 35 then TURNING else EXPLORING)"

text \<open>The number of timer ticks in a run.\<close>

fun ticks :: "event list \<Rightarrow> nat" where
  "ticks [] = 0"
| "ticks (Scan msg # evs) = ticks evs"
| "ticks (Tick rnd # evs) = Suc (ticks evs)"

text \<open>Whether every tick of a run finds a scan that has at least one sample; \<open>d\<close> is the
  scan that the node holds when the run starts, and each scan delivered replaces it.\<close>

fun ticks_have_samples :: "laser_scan \<Rightarrow> event list \<Rightarrow> bool" where
  "ticks_have_samples d [] = True"
| "ticks_have_samples d (Scan msg # evs) = ticks_have_samples msg evs"
| "ticks_have_samples d (Tick rnd # evs) = (ranges d \<noteq> [] \<and> ticks_have_samples d evs)"

text \<open>The geometry of a scan, in the words of the specification: sample 0 looks straight
  ahead and the \<open>N\<close> samples are spread evenly over the circle, so sample \<open>i\<close> looks in
  the direction of \<open>360 * i / N\<close> degrees. The front window is within 30 degrees of
  straight ahead, the left window is from 60 to 120 degrees, the right window from 240
  to 300 degrees.\<close>

definition bearing :: "nat \<Rightarrow> nat \<Rightarrow> real" where
  "bearing N i = 360 * real i / real N"

definition in_front_window :: "real \<Rightarrow> bool" where
  "in_front_window a = (a < 30 \<or> 330 \<le> a)"

definition in_left_window :: "real \<Rightarrow> bool" where
  "in_left_window a = (60 \<le> a \<and> a < 120)"

definition in_right_window :: "real \<Rightarrow> bool" where
  "in_right_window a = (240 \<le> a \<and> a < 300)"

text \<open>The scaling that the specification describes, \<open>index = round(degree * N / 360) mod N\<close>,
  and the sector it gives for a list of degrees. The program has no such function.\<close>

definition spec_scaled_index :: "nat \<Rightarrow> nat \<Rightarrow> nat" where
  "spec_scaled_index N degree = nat (round_half_even (real degree * real N / 360)) mod N"

definition spec_sector :: "nat \<Rightarrow> nat list \<Rightarrow> nat list" where
  "spec_sector N degrees = map (spec_scaled_index N) degrees"

section \<open>The float literals of the program\<close>

lemmas round64_eval =
  round64_def round_half_even_def Let_def bit_length.simps pow2_def float_exponent_def

lemma round64_0 [simp]: "round64 0 = Fin 0"
  by (simp add: round64_def)

lemma lit_0_1: "round64 (1/10) = Fin (3602879701896397 / 2^55)"
  by (simp add: round64_eval)

lemma lit_0_3: "round64 (3/10) = Fin (5404319552844595 / 2^54)"
  by (simp add: round64_eval)

lemma lit_0_5: "round64 (5/10) = Fin (1/2)"
  by (simp add: round64_eval)

lemma lit_0_7: "round64 (7/10) = Fin (3152519739159347 / 2^52)"
  by (simp add: round64_eval)

lemma lit_0_8: "round64 (8/10) = Fin (3602879701896397 / 2^52)"
  by (simp add: round64_eval)

lemma lit_0_12: "round64 (12/100) = Fin (1080863910568919 / 2^53)"
  by (simp add: round64_eval)

lemma lit_1_5: "round64 (15/10) = Fin (3/2)"
  by (simp add: round64_eval)

lemma lit_3_5: "round64 (35/10) = Fin (7/2)"
  by (simp add: round64_eval)

lemma lit_0_5_n: "round64 (1/2) = Fin (1/2)"
  using lit_0_5 by simp

lemma lit_0_8_n: "round64 (4/5) = Fin (3602879701896397 / 2^52)"
  using lit_0_8 by simp

lemma lit_0_12_n: "round64 (3/25) = Fin (1080863910568919 / 2^53)"
  using lit_0_12 by simp

lemma lit_1_5_n: "round64 (3/2) = Fin (3/2)"
  using lit_1_5 by simp

lemma lit_3_5_n: "round64 (7/2) = Fin (7/2)"
  using lit_3_5 by simp

lemmas literals = lit_0_1 lit_0_3 lit_0_5 lit_0_5_n lit_0_7 lit_0_8 lit_0_8_n lit_0_12 lit_0_12_n
  lit_1_5 lit_1_5_n lit_3_5 lit_3_5_n

lemma steer_speed: "fmul (round64 (12/100)) (round64 (3/10)) = round64 (36/1000)"
  by (simp add: literals) (simp add: round64_eval)

lemma fsub_self_Fin [simp]: "fsub (Fin a) (Fin a) = Fin 0"
  by (simp add: fsub_def)

section \<open>Facts about float arithmetic\<close>

text \<open>The rounding is to a nearest number of the binary64 grid: the exponent found
  brackets the argument, and the result is a multiple of the grid step at most half a
  step away.\<close>

lemma bit_length_bounds:
  "0 < n \<Longrightarrow> 2 ^ (bit_length n - 1) \<le> n \<and> n < 2 ^ bit_length n"
proof (induction n rule: bit_length.induct)
  case (1 n)
  show ?case
  proof (cases "n = 1")
    case True
    then show ?thesis by (simp add: bit_length.simps)
  next
    case False
    with "1.prems" have half: "0 < n div 2" by simp
    with "1.IH" "1.prems" have ih: "2 ^ (bit_length (n div 2) - 1) \<le> n div 2"
      "n div 2 < 2 ^ bit_length (n div 2)" by simp_all
    from half have pos: "0 < bit_length (n div 2)"
      by (subst bit_length.simps) simp
    have bl: "bit_length n = Suc (bit_length (n div 2))"
      using "1.prems" by (subst bit_length.simps) simp
    from pos have "(2::int) ^ (bit_length n - 1) = 2 * 2 ^ (bit_length (n div 2) - 1)"
      unfolding bl by (cases "bit_length (n div 2)") simp_all
    with ih show ?thesis unfolding bl by (simp; linarith)
  qed
qed

lemma pow2_nat: "pow2 (int k) = 2 ^ k"
  by (simp add: pow2_def)

lemma pow2_neg: "pow2 (- int k) = 1 / 2 ^ k"
  by (auto simp: pow2_def)

lemma pow2_pos [simp]: "0 < pow2 e"
  by (simp add: pow2_def)

lemma pow2_nonneg [simp]: "0 \<le> pow2 e"
  by (simp add: pow2_def)

lemma float_exponent_bounds:
  assumes "0 < x"
  shows "pow2 (float_exponent x) \<le> x \<and> x < pow2 (float_exponent x + 1)"
proof (cases "1 \<le> x")
  case True
  let ?n = "\<lfloor>x\<rfloor>"
  from True have n: "0 < ?n" by simp
  from bit_length_bounds [OF n] have b: "2 ^ (bit_length ?n - 1) \<le> ?n" "?n < 2 ^ bit_length ?n"
    by simp_all
  from n have pos: "0 < bit_length ?n" by (subst bit_length.simps) simp
  then have e: "float_exponent x = int (bit_length ?n - 1)"
    using True by (simp add: float_exponent_def of_nat_diff)
  have lo: "(2::real) ^ (bit_length ?n - 1) \<le> x"
  proof -
    from b(1) have "real_of_int (2 ^ (bit_length ?n - 1)) \<le> real_of_int ?n"
      by (simp only: of_int_le_iff)
    also have "\<dots> \<le> x" by simp
    finally show ?thesis by simp
  qed
  have hi: "x < (2::real) ^ bit_length ?n"
  proof -
    from b(2) have "?n + 1 \<le> 2 ^ bit_length ?n" by simp
    then have "real_of_int (?n + 1) \<le> real_of_int (2 ^ bit_length ?n)"
      by (simp only: of_int_le_iff)
    then have "real_of_int ?n + 1 \<le> 2 ^ bit_length ?n" by simp
    moreover have "x < real_of_int ?n + 1" by linarith
    ultimately show ?thesis by (rule less_le_trans [rotated])
  qed
  have "int (bit_length ?n - 1) + 1 = int (bit_length ?n)" using pos by simp
  with lo hi show ?thesis unfolding e by (simp only: pow2_nat) 
next
  case False
  define y where "y = 1 / x"
  define m where "m = \<lceil>y\<rceil> - 1"
  define b where "b = bit_length m"
  from False assms have y: "1 < y" by (simp add: y_def)
  then have m: "0 < m" by (simp add: m_def less_ceiling_iff)
  have my: "real_of_int m < y" "y \<le> real_of_int m + 1"
    unfolding m_def by linarith+
  from bit_length_bounds [OF m] have bounds: "2 ^ (b - 1) \<le> m" "m + 1 \<le> 2 ^ b"
    by (simp_all add: b_def)
  from m have pos: "0 < b" unfolding b_def by (subst bit_length.simps) simp
  have e: "float_exponent x = - int b"
    using False by (simp add: float_exponent_def b_def m_def y_def)
  from bounds(2) have "real_of_int (m + 1) \<le> real_of_int (2 ^ b)"
    by (simp only: of_int_le_iff)
  then have "real_of_int m + 1 \<le> 2 ^ b" by simp
  with my(2) have hi_y: "y \<le> 2 ^ b" by (rule order_trans)
  from bounds(1) have "real_of_int (2 ^ (b - 1)) \<le> real_of_int m"
    by (simp only: of_int_le_iff)
  then have "2 ^ (b - 1) \<le> real_of_int m" by simp
  then have lo_y: "2 ^ (b - 1) < y" using my(1) by (rule le_less_trans)
  have x: "x = 1 / y" using assms by (simp add: y_def)
  from hi_y y have lo: "1 / 2 ^ b \<le> x"
    unfolding x by (simp add: field_simps)
  from lo_y y have hi: "x < 1 / 2 ^ (b - 1)"
    unfolding x by (simp add: field_simps)
  have "- int b + 1 = - int (b - 1)" using pos by simp
  with lo hi show ?thesis unfolding e by (simp only: pow2_neg)
qed

lemma round_half_even_nearest: "\<bar>of_int (round_half_even z) - z\<bar> \<le> 1/2"
proof -
  let ?d = "z - of_int \<lfloor>z\<rfloor>"
  have d: "0 \<le> ?d" "?d < 1" by linarith+
  consider "?d < 1/2" | "1/2 < ?d" | "?d = 1/2" by linarith
  then show ?thesis
  proof cases
    case 1
    then have "round_half_even z = \<lfloor>z\<rfloor>" by (simp add: round_half_even_def Let_def)
    with 1 d show ?thesis by simp
  next
    case 2
    then have "round_half_even z = \<lfloor>z\<rfloor> + 1" by (simp add: round_half_even_def Let_def)
    with 2 d show ?thesis by simp
  next
    case 3
    then have "round_half_even z = \<lfloor>z\<rfloor> \<or> round_half_even z = \<lfloor>z\<rfloor> + 1"
      by (simp add: round_half_even_def Let_def)
    with 3 show ?thesis by (elim disjE) simp_all
  qed
qed

lemma round64_nearest:
  assumes "round64 x = Fin y" and "x \<noteq> 0"
  shows "\<exists>m. y = of_int m * pow2 (max (float_exponent \<bar>x\<bar>) (- 1022) - 52) \<and>
             \<bar>y - x\<bar> \<le> pow2 (max (float_exponent \<bar>x\<bar>) (- 1022) - 52) / 2 \<and>
             \<bar>y\<bar> < pow2 1024"
proof -
  let ?q = "pow2 (max (float_exponent \<bar>x\<bar>) (- 1022) - 52)"
  let ?m = "round_half_even (x / ?q)"
  from assms have y: "y = of_int ?m * ?q" and small: "\<bar>y\<bar> < pow2 1024"
    by (auto simp: round64_def Let_def split: if_splits)
  have "\<bar>of_int ?m - x / ?q\<bar> \<le> 1/2" by (rule round_half_even_nearest)
  then have "\<bar>of_int ?m - x / ?q\<bar> * ?q \<le> 1/2 * ?q"
    by (intro mult_right_mono) simp_all
  moreover have "\<bar>of_int ?m - x / ?q\<bar> * ?q = \<bar>of_int ?m * ?q - x\<bar>"
  proof -
    have "\<bar>of_int ?m - x / ?q\<bar> * ?q = \<bar>(of_int ?m - x / ?q) * ?q\<bar>"
      by (simp add: abs_mult)
    also have "(of_int ?m - x / ?q) * ?q = of_int ?m * ?q - x"
    proof -
      have "?q \<noteq> 0" by (simp add: pow2_def)
      then show ?thesis by (simp add: field_simps)
    qed
    finally show ?thesis .
  qed
  ultimately have "\<bar>y - x\<bar> \<le> ?q / 2" unfolding y by simp
  with y small show ?thesis by blast
qed

text \<open>Rounding is symmetric, so \<open>b - a\<close> is the negation of \<open>a - b\<close>.\<close>

lemma round_half_even_minus: "round_half_even (- x) = - round_half_even x"
proof (cases "x = of_int \<lfloor>x\<rfloor>")
  case True
  then obtain k :: int where k: "x = of_int k" ..
  show ?thesis
    unfolding k round_half_even_def Let_def
    by (simp flip: of_int_minus)
next
  case False
  then have fl: "\<lfloor>- x\<rfloor> = - \<lfloor>x\<rfloor> - 1"
    by (metis ceiling_altdef ceiling_def add_diff_cancel_right' uminus_add_conv_diff
        minus_diff_eq diff_minus_eq_add)
  have frac: "0 < x - of_int \<lfloor>x\<rfloor>" "x - of_int \<lfloor>x\<rfloor> < 1"
    using False by linarith+
  show ?thesis
    unfolding round_half_even_def Let_def fl
    using frac by (auto simp: field_simps)
qed

lemma round64_minus: "round64 (- x) = fneg (round64 x)"
  by (auto simp add: round64_def Let_def round_half_even_minus)

lemma round64_not_NaN [simp]: "round64 x \<noteq> NaN"
  by (simp add: round64_def Let_def)

lemma fsub_swap: "fsub b a = fneg (fsub a b)"
proof (cases a; cases b)
  fix x y assume "a = Fin x" "b = Fin y"
  then show ?thesis
    using round64_minus [of "x - y"] by (simp add: fsub_def)
qed (simp_all add: fsub_def)

lemma flt_NaN_right [simp]: "\<not> flt a NaN"
  by (cases a) simp_all

lemma not_both_above:
  assumes "0 < c" shows "\<not> (fgt d (Fin c) \<and> fgt (fneg d) (Fin c))"
  using assms by (cases d) (auto simp: fgt_def)

lemma neither_above_iff:
  assumes "d \<noteq> NaN"
  shows "(\<not> fgt d (Fin c) \<and> \<not> fgt (fneg d) (Fin c)) \<longleftrightarrow> fle (fabs d) (Fin c)"
  using assms by (cases d) (auto simp: fgt_def fle_def)

section \<open>Exceptions\<close>

lemma and_then_Inl [simp]: "and_then (Inl e) f = Inl e"
  by (simp add: and_then_def)

lemma and_then_Inr [simp]: "and_then (Inr x) f = f x"
  by (simp add: and_then_def)

lemma mod_indices_pos: "0 < n \<Longrightarrow> mod_indices xs n = Inr (map (\<lambda>i. i mod n) xs)"
  by (induction xs) (simp_all add: py_mod_def)

lemma mod_indices_zero: "xs \<noteq> [] \<Longrightarrow> mod_indices xs 0 = Inl ZeroDivisionError"
  by (cases xs) (simp_all add: py_mod_def)

section \<open>Sector minima\<close>

lemma sector_loop_eq:
  "sector_loop d indices acc = Inr (acc @ valid_samples d indices)"
  by (induction indices arbitrary: acc)
     (simp_all add: valid_samples_def valid_range_def py_index_def)

lemma flt_irrefl [simp]: "\<not> flt a a"
  by (cases a) simp_all

lemma flt_trans: "flt a b \<Longrightarrow> flt b c \<Longrightarrow> flt a c"
  by (cases a; cases b; cases c) simp_all

lemma flt_total: "a \<noteq> NaN \<Longrightarrow> b \<noteq> NaN \<Longrightarrow> flt a b \<or> a = b \<or> flt b a"
  by (cases a; cases b) auto

lemma min_loop_mem: "min_loop m xs \<in> set (m # xs)"
  by (induction xs arbitrary: m) auto

lemma min_loop_le_start: "m \<noteq> NaN \<Longrightarrow> NaN \<notin> set xs \<Longrightarrow> fle (min_loop m xs) m"
proof (induction xs arbitrary: m)
  case Nil
  then show ?case by (simp add: fle_def)
next
  case (Cons x xs)
  show ?case
  proof (cases "flt x m")
    case True
    from Cons.prems have "x \<noteq> NaN" "NaN \<notin> set xs" by auto
    then have "fle (min_loop x xs) x" by (rule Cons.IH)
    with True Cons.prems show ?thesis
      by (auto simp: fle_def dest: flt_trans)
  next
    case False
    with Cons show ?thesis by simp
  qed
qed

lemma min_loop_le_all:
  "m \<noteq> NaN \<Longrightarrow> NaN \<notin> set xs \<Longrightarrow> v \<in> set (m # xs) \<Longrightarrow> fle (min_loop m xs) v"
proof (induction xs arbitrary: m)
  case Nil
  then show ?case by (simp add: fle_def)
next
  case (Cons x xs)
  let ?m' = "if flt x m then x else m"
  from Cons.prems have nn: "?m' \<noteq> NaN" "NaN \<notin> set xs" "x \<noteq> NaN" by auto
  have start: "fle (min_loop ?m' xs) ?m'"
    using nn by (intro min_loop_le_start)
  consider "v = m" | "v = x" | "v \<in> set xs" using Cons.prems by auto
  then show ?case
  proof cases
    case 1
    show ?thesis
    proof (cases "flt x m")
      case True
      with start 1 Cons.prems show ?thesis by (auto simp: fle_def dest: flt_trans)
    next
      case False
      with start 1 show ?thesis by simp
    qed
  next
    case 2
    show ?thesis
    proof (cases "flt x m")
      case True
      with start 2 show ?thesis by simp
    next
      case False
      with flt_total [of x m] nn Cons.prems have "m = x \<or> flt m x" by auto
      with start False 2 Cons.prems show ?thesis by (auto simp: fle_def dest: flt_trans)
    qed
  next
    case 3
    then have "v \<in> set (?m' # xs)" by simp
    with nn have "fle (min_loop ?m' xs) v" by (intro Cons.IH)
    then show ?thesis by simp
  qed
qed

lemma valid_samples_valid: "v \<in> set (valid_samples d indices) \<Longrightarrow> valid_range d v"
  by (auto simp: valid_samples_def)

lemma get_sector_min_total:
  "\<exists>m. get_sector_min d indices = Inr m \<and> sector_min_ok d indices m"
proof (cases "valid_samples d indices")
  case Nil
  then show ?thesis
    by (simp add: get_sector_min_def sector_loop_eq sector_min_ok_def)
next
  case (Cons x xs)
  let ?m = "min_loop x xs"
  have valid: "\<And>v. v \<in> set (x # xs) \<Longrightarrow> valid_range d v"
    using valid_samples_valid [of _ d indices] Cons by simp
  then have nn: "x \<noteq> NaN" "NaN \<notin> set xs"
    by (auto simp: valid_range_def isnan_def)
  have mem: "?m \<in> set (x # xs)" by (rule min_loop_mem)
  have le: "list_all (\<lambda>v. fle ?m v) (x # xs)"
    unfolding list_all_iff using min_loop_le_all [OF nn] by blast
  from valid [OF mem] have "fgt ?m (round64 (1/10))" "flt ?m (range_max d)"
    by (simp_all add: valid_range_def)
  with mem le Cons show ?thesis
    by (simp add: get_sector_min_def sector_loop_eq sector_min_ok_def py_min_def)
qed

section \<open>The summary of a scan\<close>

lemma front_indices_nonempty: "front_indices \<noteq> []"
  by (simp add: front_indices_def)

lemma get_safe_directions_empty:
  assumes "lidar_data self = Some d" and "ranges d = []"
  shows "get_safe_directions self = Inl ZeroDivisionError"
  using assms by (simp add: get_safe_directions_def mod_indices_zero front_indices_nonempty)

lemma get_safe_directions_nonempty:
  assumes "lidar_data self = Some d" and "ranges d \<noteq> []"
  shows "\<exists>s. get_safe_directions self = Inr (Some s) \<and>
             sector_min_ok d (sector_of d front_indices) (front s) \<and>
             sector_min_ok d (sector_of d left_indices) (left s) \<and>
             sector_min_ok d (sector_of d right_indices) (right s) \<and>
             left_better s = fgt (fsub (left s) (right s)) (round64 (3/10)) \<and>
             right_better s = fgt (fsub (right s) (left s)) (round64 (3/10)) \<and>
             equal_space s = (\<not> left_better s \<and> \<not> right_better s)"
proof -
  from assms(2) have pos: "0 < length (ranges d)" by simp
  obtain f where f: "get_sector_min d (sector_of d front_indices) = Inr f"
      "sector_min_ok d (sector_of d front_indices) f"
    using get_sector_min_total by blast
  obtain l where l: "get_sector_min d (sector_of d left_indices) = Inr l"
      "sector_min_ok d (sector_of d left_indices) l"
    using get_sector_min_total by blast
  obtain r where r: "get_sector_min d (sector_of d right_indices) = Inr r"
      "sector_min_ok d (sector_of d right_indices) r"
    using get_sector_min_total by blast
  from assms(1) pos f l r show ?thesis
    by (simp add: get_safe_directions_def mod_indices_pos sector_of_def Let_def)
qed

lemma left_indices_nonempty: "left_indices \<noteq> []"
  by (simp add: left_indices_def)

lemma right_indices_nonempty: "right_indices \<noteq> []"
  by (simp add: right_indices_def)

lemma summary_needs_scan:
  "get_safe_directions self = Inr (Some s) \<Longrightarrow> lidar_data self \<noteq> None"
  by (cases "lidar_data self") (simp_all add: get_safe_directions_def)

subsection \<open>Scans whose samples all read the same\<close>

lemma min_loop_replicate [simp]: "min_loop x (replicate k x) = x"
  by (induction k) simp_all

lemma valid_samples_uniform:
  "valid_samples (uniform_scan n x M) indices =
     (if valid_range (uniform_scan n x M) x
      then replicate (length (filter (\<lambda>i. i < n) indices)) x else [])"
proof -
  have "map ((!) (replicate n x)) (filter (\<lambda>i. i < n) indices) =
        replicate (length (filter (\<lambda>i. i < n) indices)) x"
    by (induction indices) simp_all
  then show ?thesis
    by (simp add: valid_samples_def uniform_scan_def)
qed

lemma get_sector_min_uniform:
  assumes "0 < n" and "indices \<noteq> []"
  shows "get_sector_min (uniform_scan n x M) (map (\<lambda>i. i mod n) indices) =
           Inr (if valid_range (uniform_scan n x M) x then x else M)"
proof -
  have "filter (\<lambda>i. i < n) (map (\<lambda>i. i mod n) indices) = map (\<lambda>i. i mod n) indices"
    using assms(1) by (simp add: filter_id_conv)
  then have "length (filter (\<lambda>i. i < n) (map (\<lambda>i. i mod n) indices)) = length indices"
    by simp
  moreover obtain k where "length indices = Suc k"
    using assms(2) by (cases indices) auto
  moreover have "range_max (uniform_scan n x M) = M"
    by (simp add: uniform_scan_def)
  ultimately show ?thesis
    by (simp add: get_sector_min_def sector_loop_eq valid_samples_uniform py_min_def)
qed

lemma uniform_scan_summary:
  assumes "lidar_data self = Some (uniform_scan n x M)" and "0 < n"
  shows "get_safe_directions self =
           (let m = (if valid_range (uniform_scan n x M) x then x else M);
                b = fgt (fsub m m) (round64 (3/10))
            in Inr (Some \<lparr>front = m, left = m, right = m,
                 left_better = b, right_better = b, equal_space = (\<not> b)\<rparr>))"
proof -
  have "length (ranges (uniform_scan n x M)) = n"
    by (simp add: uniform_scan_def)
  with assms show ?thesis
    by (simp add: get_safe_directions_def mod_indices_pos get_sector_min_uniform
        front_indices_nonempty left_indices_nonempty right_indices_nonempty Let_def)
qed

lemma valid_in_uniform_scan:
  "valid_range (uniform_scan n (Fin a) (Fin b)) (Fin a) = (3602879701896397 / 2^55 < a \<and> a < b)"
  by (simp add: valid_range_def uniform_scan_def isnan_def fgt_def lit_0_1)

lemma uniform_scan_nonempty [simp]: "ranges (uniform_scan n x M) \<noteq> [] \<longleftrightarrow> 0 < n"
  by (simp add: uniform_scan_def)

lemma uniform_scan_empty [simp]: "ranges (uniform_scan n x M) = [] \<longleftrightarrow> n = 0"
  by (simp add: uniform_scan_def)

lemma near_scan_summary:
  assumes "lidar_data self = Some (uniform_scan 360 (Fin a) (Fin (7/2)))"
    and "3602879701896397 / 2^55 < a" and "a < 7/2"
  shows "get_safe_directions self =
     Inr (Some \<lparr>front = Fin a, left = Fin a, right = Fin a,
                 left_better = False, right_better = False, equal_space = True\<rparr>)"
  using assms(2,3)
  by (simp add: uniform_scan_summary [OF assms(1)] valid_in_uniform_scan fgt_def lit_0_3 Let_def)

section \<open>One tick in each state\<close>

lemma configured_init: "configured init"
  by (simp add: configured_def init_def)

lemma configured_update [simp]:
  "configured (self\<lparr>lidar_data := x\<rparr>) = configured self"
  "configured (self\<lparr>state := y\<rparr>) = configured self"
  "configured (self\<lparr>backup_time := z\<rparr>) = configured self"
  by (simp_all add: configured_def)

lemma control_loop_EXPLORING:
  assumes "get_safe_directions self = Inr (Some s)" and "state self = EXPLORING"
  shows "control_loop self rnd =
    (if flt (front s) (min_distance self) then
       Inr (Some \<lparr>linear_x = backup_speed self, angular_z = Fin 0\<rparr>,
            self\<lparr>state := BACKING_UP, backup_time := Fin 0\<rparr>)
     else if flt (front s) (safe_distance self) then
       Inr (Some \<lparr>linear_x = fmul (forward_speed self) (round64 (3/10)),
                   angular_z = (if left_better s then turn_speed self
                                else if right_better s then fneg (turn_speed self)
                                else if fgt rnd (round64 (5/10)) then turn_speed self
                                else fneg (turn_speed self))\<rparr>, self)
     else Inr (Some \<lparr>linear_x = forward_speed self, angular_z = Fin 0\<rparr>, self))"
proof -
  from assms(1) have "lidar_data self \<noteq> None"
    by (rule summary_needs_scan)
  with assms show ?thesis
    by (simp add: control_loop_def Twist_def Let_def)
qed

lemma control_loop_BACKING_UP:
  assumes "get_safe_directions self = Inr (Some s)" and "state self = BACKING_UP"
  shows "control_loop self rnd =
    Inr (Some \<lparr>linear_x = backup_speed self, angular_z = Fin 0\<rparr>,
         if fge (fadd (backup_time self) (round64 (1/10))) (round64 (15/10))
         then self\<lparr>backup_time := fadd (backup_time self) (round64 (1/10)), state := TURNING\<rparr>
         else self\<lparr>backup_time := fadd (backup_time self) (round64 (1/10))\<rparr>)"
proof -
  from assms(1) have "lidar_data self \<noteq> None"
    by (rule summary_needs_scan)
  with assms show ?thesis
    by (simp add: control_loop_def Twist_def Let_def)
qed

lemma control_loop_TURNING:
  assumes "get_safe_directions self = Inr (Some s)" and "state self = TURNING"
  shows "control_loop self rnd =
    Inr (Some \<lparr>linear_x = Fin 0,
                angular_z = (if left_better s then turn_speed self
                             else if right_better s then fneg (turn_speed self)
                             else if fgt rnd (round64 (5/10)) then turn_speed self
                             else fneg (turn_speed self))\<rparr>,
         if fge (fadd (backup_time self) (round64 (1/10))) (round64 (35/10))
         then self\<lparr>backup_time := fadd (backup_time self) (round64 (1/10)), state := EXPLORING\<rparr>
         else self\<lparr>backup_time := fadd (backup_time self) (round64 (1/10))\<rparr>)"
proof -
  from assms(1) have "lidar_data self \<noteq> None"
    by (rule summary_needs_scan)
  with assms show ?thesis
    by (simp add: control_loop_def Twist_def Let_def)
qed

lemma control_loop_raises:
  assumes "lidar_data self = Some d" and "ranges d = []"
  shows "control_loop self rnd = Inl ZeroDivisionError"
  using assms by (simp add: control_loop_def get_safe_directions_empty)

lemma control_loop_returns:
  assumes "lidar_data self = Some d" and "ranges d \<noteq> []"
  shows "\<exists>cmd self'. control_loop self rnd = Inr (Some cmd, self')"
proof -
  from get_safe_directions_nonempty [OF assms] obtain s where
    s: "get_safe_directions self = Inr (Some s)" by blast
  show ?thesis
    by (cases "state self")
       (simp_all add: control_loop_EXPLORING [OF s] control_loop_BACKING_UP [OF s]
          control_loop_TURNING [OF s])
qed

subsection \<open>The parameters stay as configured\<close>

lemma control_loop_result:
  assumes "control_loop self rnd = Inr (out, self')"
  shows "(out = None \<and> self' = self) \<or> (\<exists>s. get_safe_directions self = Inr (Some s))"
proof (cases "lidar_data self")
  case None
  with assms show ?thesis by (simp add: control_loop_def)
next
  case (Some d)
  show ?thesis
  proof (cases "get_safe_directions self")
    case (Inl e)
    with assms Some show ?thesis by (simp add: control_loop_def)
  next
    case (Inr r)
    with assms Some show ?thesis by (cases r) (simp_all add: control_loop_def)
  qed
qed

lemma control_loop_keeps_configuration:
  assumes "control_loop self rnd = Inr (out, self')"
  shows "configured self' = configured self"
proof -
  from control_loop_result [OF assms] consider "self' = self"
    | s where "get_safe_directions self = Inr (Some s)" by blast
  then show ?thesis
  proof cases
    case 1
    then show ?thesis by simp
  next
    case 2
    show ?thesis
    proof (cases "state self")
      case EXPLORING
      from assms show ?thesis
        unfolding control_loop_EXPLORING [OF 2 EXPLORING] by (auto split: if_splits)
    next
      case BACKING_UP
      from assms show ?thesis
        unfolding control_loop_BACKING_UP [OF 2 BACKING_UP] by (auto split: if_splits)
    next
      case TURNING
      from assms show ?thesis
        unfolding control_loop_TURNING [OF 2 TURNING] by (auto split: if_splits)
    qed
  qed
qed

lemma spin_keeps_configuration:
  assumes "spin self evs = Inr (cmds, self')"
  shows "configured self' = configured self"
  using assms
proof (induction self evs arbitrary: cmds rule: spin.induct)
  case (1 self)
  then show ?case by simp
next
  case (2 self msg evs)
  then show ?case by (simp add: lidar_callback_def)
next
  case (3 self rnd evs)
  from "3.prems" obtain out self1 cmds1 where
    step: "control_loop self rnd = Inr (out, self1)" and rest: "spin self1 evs = Inr (cmds1, self')"
    by (auto split: sum.splits prod.splits)
  from "3.IH" [OF step refl rest] control_loop_keeps_configuration [OF step]
  show ?case by simp
qed

lemma control_loop_keeps_scan:
  assumes "control_loop self rnd = Inr (out, self')"
  shows "lidar_data self' = lidar_data self"
proof -
  from control_loop_result [OF assms] consider "self' = self"
    | s where "get_safe_directions self = Inr (Some s)" by blast
  then show ?thesis
  proof cases
    case 1
    then show ?thesis by simp
  next
    case 2
    show ?thesis
    proof (cases "state self")
      case EXPLORING
      from assms show ?thesis
        unfolding control_loop_EXPLORING [OF 2 EXPLORING] by (auto split: if_splits)
    next
      case BACKING_UP
      from assms show ?thesis
        unfolding control_loop_BACKING_UP [OF 2 BACKING_UP] by (auto split: if_splits)
    next
      case TURNING
      from assms show ?thesis
        unfolding control_loop_TURNING [OF 2 TURNING] by (auto split: if_splits)
    qed
  qed
qed

subsection \<open>The turn when the space is equal\<close>

text \<open>When neither side is better, the sign of the turn is that of the draw: to the left
  exactly when \<^verbatim>\<open>random.random()\<close> is above 0.5.\<close>

lemma tie_break_follows_draw:
  assumes "get_safe_directions self = Inr (Some s)" and "equal_space s"
    and "state self = TURNING \<or>
         (state self = EXPLORING \<and> \<not> flt (front s) (min_distance self) \<and>
          flt (front s) (safe_distance self))"
  shows "\<exists>cmd self'. control_loop self rnd = Inr (Some cmd, self') \<and>
           angular_z cmd = (if fgt rnd (round64 (5/10)) then turn_speed self
                            else fneg (turn_speed self))"
proof -
  from assms(1) have "lidar_data self \<noteq> None" by (rule summary_needs_scan)
  then obtain d where d: "lidar_data self = Some d" by blast
  have "equal_space s = (\<not> left_better s \<and> \<not> right_better s)"
    using assms(1) d
    by (auto simp: get_safe_directions_def Let_def and_then_def split: sum.splits)
  with assms(2) have flags: "\<not> left_better s" "\<not> right_better s" by simp_all
  from assms(3) show ?thesis
  proof
    assume st: "state self = TURNING"
    from control_loop_TURNING [OF assms(1) st, of rnd] flags show ?thesis
      by (cases "fge (fadd (backup_time self) (round64 (1/10))) (round64 (35/10))") simp_all
  next
    assume "state self = EXPLORING \<and> \<not> flt (front s) (min_distance self) \<and>
          flt (front s) (safe_distance self)"
    with control_loop_EXPLORING [OF assms(1), of rnd] flags show ?thesis by simp
  qed
qed

subsection \<open>The thresholds are read while exploring only\<close>

lemma thresholds_unused_outside_exploring:
  assumes "state self \<noteq> EXPLORING" and "control_loop self rnd = Inr (out, self')"
  shows "control_loop (self\<lparr>min_distance := md, safe_distance := sd\<rparr>) rnd =
           Inr (out, self'\<lparr>min_distance := md, safe_distance := sd\<rparr>)"
proof -
  let ?self = "self\<lparr>min_distance := md, safe_distance := sd\<rparr>"
  have same: "get_safe_directions ?self = get_safe_directions self"
    by (simp add: get_safe_directions_def)
  from control_loop_result [OF assms(2)] consider "out = None" "self' = self"
      "\<nexists>s. get_safe_directions self = Inr (Some s)"
    | s where "get_safe_directions self = Inr (Some s)" by blast
  then show ?thesis
  proof cases
    case 1
    have "control_loop ?self rnd = Inr (None, ?self)"
    proof (cases "lidar_data self")
      case None
      then show ?thesis by (simp add: control_loop_def)
    next
      case (Some d)
      with assms(2) 1(3) have "get_safe_directions self = Inr None"
        by (cases "get_safe_directions self")
           (auto simp: control_loop_def split: option.splits)
      with Some same show ?thesis by (simp add: control_loop_def)
    qed
    with 1 show ?thesis by simp
  next
    case 2
    then have s: "get_safe_directions ?self = Inr (Some s)" by (simp add: same)
    show ?thesis
    proof (cases "state self")
      case EXPLORING
      with assms(1) show ?thesis by simp
    next
      case BACKING_UP
      then have st: "state ?self = BACKING_UP" by simp
      from assms(2) show ?thesis
        unfolding control_loop_BACKING_UP [OF 2 BACKING_UP] control_loop_BACKING_UP [OF s st]
        by (auto split: if_splits)
    next
      case TURNING
      then have st: "state ?self = TURNING" by simp
      from assms(2) show ?thesis
        unfolding control_loop_TURNING [OF 2 TURNING] control_loop_TURNING [OF s st]
        by (auto split: if_splits)
    qed
  qed
qed

section \<open>No scan yet\<close>

text \<open>
  C6. While no scan has been received (\<open>lidar_data\<close> is \<open>None\<close>), a tick is a no-op:
  \<open>control_loop\<close> publishes nothing and leaves the node, so its state and its timer,
  as they were; and so does any number of ticks in a row.
\<close>

theorem no_scan_tick_is_noop:
  "control_loop (self\<lparr>lidar_data := None\<rparr>) rnd = Inr (None, self\<lparr>lidar_data := None\<rparr>) \<and>
   spin (self\<lparr>lidar_data := None\<rparr>) (map Tick rnds) = Inr ([], self\<lparr>lidar_data := None\<rparr>)"
proof
  show tick: "control_loop (self\<lparr>lidar_data := None\<rparr>) rnd = Inr (None, self\<lparr>lidar_data := None\<rparr>)"
    for rnd
    by (simp add: control_loop_def)
  show "spin (self\<lparr>lidar_data := None\<rparr>) (map Tick rnds) = Inr ([], self\<lparr>lidar_data := None\<rparr>)"
    by (induction rnds) (simp_all add: tick)
qed

section \<open>The sector distances\<close>

text \<open>
  C5. For a scan that has samples, the summary exists and each of its three distances
  is as \<open>sector_min_ok\<close> says: exactly \<open>range_max\<close> when the sector has no valid
  sample (every sample of it is NaN, not above 0.1 or not below \<open>range_max\<close>), and
  otherwise the least valid sample of the sector, which lies strictly between 0.1 and
  \<open>range_max\<close>. So each distance is \<open>range_max\<close> or strictly inside the interval.
\<close>

theorem sector_distances_in_range:
  assumes "lidar_data self = Some d" and "ranges d \<noteq> []"
  shows "\<exists>s. get_safe_directions self = Inr (Some s) \<and>
             sector_min_ok d (sector_of d front_indices) (front s) \<and>
             sector_min_ok d (sector_of d left_indices) (left s) \<and>
             sector_min_ok d (sector_of d right_indices) (right s) \<and>
             list_all (\<lambda>m. m = range_max d \<or> (fgt m (round64 (1/10)) \<and> flt m (range_max d)))
               [front s, left s, right s]"
proof -
  from get_safe_directions_nonempty [OF assms] obtain s where
    s: "get_safe_directions self = Inr (Some s)"
       "sector_min_ok d (sector_of d front_indices) (front s)"
       "sector_min_ok d (sector_of d left_indices) (left s)"
       "sector_min_ok d (sector_of d right_indices) (right s)"
    by blast
  have "m = range_max d \<or> (fgt m (round64 (1/10)) \<and> flt m (range_max d))"
    if "sector_min_ok d idxs m" for idxs m
    using that by (auto simp: sector_min_ok_def split: if_splits)
  with s show ?thesis by auto
qed


theorem sector_distances_in_range_witness:
  "lidar_data (init\<lparr>lidar_data := Some (uniform_scan 360 (Fin 1) (Fin (7/2)))\<rparr>) =
     Some (uniform_scan 360 (Fin 1) (Fin (7/2))) \<and>
   ranges (uniform_scan 360 (Fin 1) (Fin (7/2))) \<noteq> [] \<and>
   get_safe_directions (init\<lparr>lidar_data := Some (uniform_scan 360 (Fin 1) (Fin (7/2)))\<rparr>) =
     Inr (Some \<lparr>front = Fin 1, left = Fin 1, right = Fin 1,
                 left_better = False, right_better = False, equal_space = True\<rparr>) \<and>
   sector_min_ok (uniform_scan 360 (Fin 1) (Fin (7/2)))
     (sector_of (uniform_scan 360 (Fin 1) (Fin (7/2))) front_indices) (Fin 1) \<and>
   fgt (Fin 1) (round64 (1/10)) \<and> flt (Fin 1) (Fin (7/2))"
proof -
  let ?d = "uniform_scan 360 (Fin 1) (Fin (7/2))"
  let ?w = "init\<lparr>lidar_data := Some ?d\<rparr>"
  have scan: "lidar_data ?w = Some ?d" and ne: "ranges ?d \<noteq> []"
    by simp_all
  have sum: "get_safe_directions ?w =
     Inr (Some \<lparr>front = Fin 1, left = Fin 1, right = Fin 1,
                 left_better = False, right_better = False, equal_space = True\<rparr>)"
    by (simp add: uniform_scan_summary [OF scan] valid_in_uniform_scan fgt_def lit_0_3 Let_def)
  from sector_distances_in_range [OF scan ne] sum
  have "sector_min_ok ?d (sector_of ?d front_indices) (Fin 1)"
    by auto
  moreover have "fgt (Fin 1) (round64 (1/10))" "flt (Fin 1) (Fin (7/2))"
    by (simp_all add: fgt_def lit_0_1)
  ultimately show ?thesis using scan ne sum by blast
qed

section \<open>The space flags\<close>

lemma sector_min_finite:
  assumes "sector_min_ok d indices m" and "range_max d = Fin b"
  shows "\<exists>a. m = Fin a"
  using assms by (cases m) (auto simp: sector_min_ok_def fgt_def lit_0_1 split: if_splits)

text \<open>
  C4, as the code has it. For a scan that has samples, exactly one of \<open>left_better\<close>,
  \<open>right_better\<close> and \<open>equal\<close> is true; \<open>left_better\<close> is \<open>left - right > 0.3\<close>,
  \<open>right_better\<close> is \<open>right - left > 0.3\<close>, and \<open>equal\<close> is the negation of both.
  When the difference \<open>left - right\<close> is a number, \<open>equal\<close> holds exactly when its
  absolute value is at most 0.3; when the difference is NaN, \<open>equal\<close> holds. The
  difference is a number whenever \<open>range_max\<close> is finite.
\<close>

theorem flags_of_summary:
  assumes "lidar_data self = Some d" and "ranges d \<noteq> []"
  shows "\<exists>s. get_safe_directions self = Inr (Some s) \<and>
     ((left_better s \<and> \<not> right_better s \<and> \<not> equal_space s) \<or>
      (right_better s \<and> \<not> left_better s \<and> \<not> equal_space s) \<or>
      (equal_space s \<and> \<not> left_better s \<and> \<not> right_better s)) \<and>
     left_better s = fgt (fsub (left s) (right s)) (round64 (3/10)) \<and>
     right_better s = fgt (fsub (right s) (left s)) (round64 (3/10)) \<and>
     (isnan (fsub (left s) (right s)) \<longrightarrow> equal_space s) \<and>
     (\<not> isnan (fsub (left s) (right s)) \<longrightarrow>
        equal_space s = fle (fabs (fsub (left s) (right s))) (round64 (3/10))) \<and>
     ((\<exists>b. range_max d = Fin b) \<longrightarrow> \<not> isnan (fsub (left s) (right s)))"
proof -
  from get_safe_directions_nonempty [OF assms] obtain s where
    s: "get_safe_directions self = Inr (Some s)"
       "sector_min_ok d (sector_of d left_indices) (left s)"
       "sector_min_ok d (sector_of d right_indices) (right s)"
       "left_better s = fgt (fsub (left s) (right s)) (round64 (3/10))"
       "right_better s = fgt (fsub (right s) (left s)) (round64 (3/10))"
       "equal_space s = (\<not> left_better s \<and> \<not> right_better s)"
    by blast
  let ?d = "fsub (left s) (right s)"
  have swap: "fsub (right s) (left s) = fneg ?d" by (rule fsub_swap)
  have excl: "\<not> (left_better s \<and> right_better s)"
    using not_both_above [of "5404319552844595 / 2^54" ?d]
    by (simp add: s(4,5) swap lit_0_3)
  have nan: "equal_space s" if "isnan ?d"
    using that by (simp add: s(4,5,6) swap isnan_def fgt_def)
  have eq: "equal_space s = fle (fabs ?d) (round64 (3/10))" if "\<not> isnan ?d"
    using that neither_above_iff [of ?d "5404319552844595 / 2^54"]
    by (simp add: s(4,5,6) swap lit_0_3 isnan_def)
  have fin: "\<not> isnan ?d" if "\<exists>b. range_max d = Fin b"
  proof -
    from that obtain b where b: "range_max d = Fin b" by blast
    from sector_min_finite [OF s(2) b] sector_min_finite [OF s(3) b]
    show ?thesis by (auto simp: fsub_def isnan_def)
  qed
  from s(1) s(4,5,6) excl nan eq fin show ?thesis
    by (intro exI [of _ s]) auto
qed


theorem flags_of_summary_witness:
  "lidar_data (init\<lparr>lidar_data := Some (uniform_scan 360 (Fin 1) (Fin (7/2)))\<rparr>) =
     Some (uniform_scan 360 (Fin 1) (Fin (7/2))) \<and>
   ranges (uniform_scan 360 (Fin 1) (Fin (7/2))) \<noteq> [] \<and>
   get_safe_directions (init\<lparr>lidar_data := Some (uniform_scan 360 (Fin 1) (Fin (7/2)))\<rparr>) =
     Inr (Some \<lparr>front = Fin 1, left = Fin 1, right = Fin 1,
                 left_better = False, right_better = False, equal_space = True\<rparr>) \<and>
   fle (fabs (fsub (Fin 1) (Fin 1))) (round64 (3/10))"
proof -
  let ?d = "uniform_scan 360 (Fin 1) (Fin (7/2))"
  let ?w = "init\<lparr>lidar_data := Some ?d\<rparr>"
  have scan: "lidar_data ?w = Some ?d" and ne: "ranges ?d \<noteq> []"
    by simp_all
  have sum: "get_safe_directions ?w =
     Inr (Some \<lparr>front = Fin 1, left = Fin 1, right = Fin 1,
                 left_better = False, right_better = False, equal_space = True\<rparr>)"
    by (simp add: uniform_scan_summary [OF scan] valid_in_uniform_scan fgt_def lit_0_3 Let_def)
  from flags_of_summary [OF scan ne] sum
  have "fle (fabs (fsub (Fin 1) (Fin 1))) (round64 (3/10))"
    by (auto simp: isnan_def)
  with scan ne sum show ?thesis by blast
qed

text \<open>
  C4 as stated fails on a scan that announces an infinite \<open>range_max\<close> and has no
  valid sample on either side: both side distances are the infinite \<open>range_max\<close>,
  their difference is NaN, neither side is better, so \<open>equal\<close> is true although the
  absolute difference is not at most 0.3.
\<close>

theorem equal_without_small_difference:
  "get_safe_directions (init\<lparr>lidar_data := Some (uniform_scan 360 PInf PInf)\<rparr>) =
     Inr (Some \<lparr>front = PInf, left = PInf, right = PInf,
                 left_better = False, right_better = False, equal_space = True\<rparr>) \<and>
   \<not> fle (fabs (fsub PInf PInf)) (round64 (3/10))"
proof -
  let ?d = "uniform_scan 360 PInf PInf"
  have scan: "lidar_data (init\<lparr>lidar_data := Some ?d\<rparr>) = Some ?d"
    by simp
  have "\<not> valid_range ?d PInf"
    by (simp add: valid_range_def uniform_scan_def)
  then show ?thesis
    by (simp add: uniform_scan_summary [OF scan] fsub_def fgt_def fle_def Let_def)
qed

section \<open>A tick while exploring\<close>

text \<open>
  C3 fails on a received scan that has no samples: the tick raises \<open>ZeroDivisionError\<close>
  and publishes nothing, where the claim promises one of three commands. On every other
  received scan a tick in state \<open>EXPLORING\<close> does what the claim says: when the front
  distance is below 0.3 the command of this very tick is \<open>{linear = -0.1, angular = 0}\<close>,
  the state becomes \<open>BACKING_UP\<close> and the timer is set to 0; otherwise, when it is below
  0.7, the command is \<open>{linear = 0.12 * 0.3, angular = +0.8 or -0.8}\<close> (+0.8 when the
  left is better, -0.8 when the right is better, and by the random draw when the space
  is equal) and the node is unchanged; otherwise the command is
  \<open>{linear = 0.12, angular = 0}\<close> and the node is unchanged.
\<close>

theorem exploring_tick:
  assumes "configured self" and "state self = EXPLORING" and "lidar_data self = Some d"
  shows "if ranges d = [] then control_loop self rnd = Inl ZeroDivisionError
    else \<exists>s. get_safe_directions self = Inr (Some s) \<and>
    control_loop self rnd =
      (if flt (front s) (round64 (3/10)) then
         Inr (Some \<lparr>linear_x = fneg (round64 (1/10)), angular_z = Fin 0\<rparr>,
              self\<lparr>state := BACKING_UP, backup_time := Fin 0\<rparr>)
       else if flt (front s) (round64 (7/10)) then
         Inr (Some \<lparr>linear_x = fmul (round64 (12/100)) (round64 (3/10)),
                     angular_z = (if left_better s then round64 (8/10)
                                  else if right_better s then fneg (round64 (8/10))
                                  else if fgt rnd (round64 (5/10)) then round64 (8/10)
                                  else fneg (round64 (8/10)))\<rparr>, self)
       else Inr (Some \<lparr>linear_x = round64 (12/100), angular_z = Fin 0\<rparr>, self))"
proof (cases "ranges d = []")
  case True
  with control_loop_raises [OF assms(3)] show ?thesis by simp
next
  case False
  from get_safe_directions_nonempty [OF assms(3) False] obtain s where
    s: "get_safe_directions self = Inr (Some s)" by blast
  from assms(1) have "min_distance self = round64 (3/10)" "safe_distance self = round64 (7/10)"
    "forward_speed self = round64 (12/100)" "turn_speed self = round64 (8/10)"
    "backup_speed self = fneg (round64 (1/10))"
    by (simp_all add: configured_def)
  with control_loop_EXPLORING [OF s assms(2), of rnd] s False show ?thesis
    by simp
qed

theorem exploring_tick_witness:
  "configured init \<and> state init = EXPLORING \<and>
   control_loop (init\<lparr>lidar_data := Some \<lparr>ranges = [], range_max = Fin (7/2)\<rparr>\<rparr>) (Fin (3/4)) =
     Inl ZeroDivisionError \<and>
   control_loop (init\<lparr>lidar_data := Some (uniform_scan 360 (Fin (1/4)) (Fin (7/2)))\<rparr>) (Fin (3/4)) =
     Inr (Some \<lparr>linear_x = fneg (round64 (1/10)), angular_z = Fin 0\<rparr>,
          init\<lparr>lidar_data := Some (uniform_scan 360 (Fin (1/4)) (Fin (7/2))),
               state := BACKING_UP, backup_time := Fin 0\<rparr>) \<and>
   control_loop (init\<lparr>lidar_data := Some (uniform_scan 360 (Fin (1/2)) (Fin (7/2)))\<rparr>) (Fin (3/4)) =
     Inr (Some \<lparr>linear_x = fmul (round64 (12/100)) (round64 (3/10)), angular_z = round64 (8/10)\<rparr>,
          init\<lparr>lidar_data := Some (uniform_scan 360 (Fin (1/2)) (Fin (7/2)))\<rparr>) \<and>
   control_loop (init\<lparr>lidar_data := Some (uniform_scan 360 (Fin 1) (Fin (7/2)))\<rparr>) (Fin (3/4)) =
     Inr (Some \<lparr>linear_x = round64 (12/100), angular_z = Fin 0\<rparr>,
          init\<lparr>lidar_data := Some (uniform_scan 360 (Fin 1) (Fin (7/2)))\<rparr>)"
proof -
  have st: "state (init\<lparr>lidar_data := x\<rparr>) = EXPLORING" for x
    by (simp add: init_def)
  have conf: "configured (init\<lparr>lidar_data := x\<rparr>)" for x
    by (simp add: configured_init)
  have scan: "lidar_data (init\<lparr>lidar_data := Some d\<rparr>) = Some d" for d
    by simp
  have z: "control_loop (init\<lparr>lidar_data := Some \<lparr>ranges = [], range_max = Fin (7/2)\<rparr>\<rparr>) (Fin (3/4)) =
     Inl ZeroDivisionError"
    using exploring_tick [OF conf st scan, of "\<lparr>ranges = [], range_max = Fin (7/2)\<rparr>" "Fin (3/4)"]
    by simp
  have a: "control_loop (init\<lparr>lidar_data := Some (uniform_scan 360 (Fin (1/4)) (Fin (7/2)))\<rparr>) (Fin (3/4)) =
     Inr (Some \<lparr>linear_x = fneg (round64 (1/10)), angular_z = Fin 0\<rparr>,
          init\<lparr>lidar_data := Some (uniform_scan 360 (Fin (1/4)) (Fin (7/2))),
               state := BACKING_UP, backup_time := Fin 0\<rparr>)"
    using exploring_tick [OF conf st scan, of "uniform_scan 360 (Fin (1/4)) (Fin (7/2))" "Fin (3/4)"]
    by (simp add: near_scan_summary lit_0_3)
  have b: "control_loop (init\<lparr>lidar_data := Some (uniform_scan 360 (Fin (1/2)) (Fin (7/2)))\<rparr>) (Fin (3/4)) =
     Inr (Some \<lparr>linear_x = fmul (round64 (12/100)) (round64 (3/10)), angular_z = round64 (8/10)\<rparr>,
          init\<lparr>lidar_data := Some (uniform_scan 360 (Fin (1/2)) (Fin (7/2)))\<rparr>)"
    using exploring_tick [OF conf st scan, of "uniform_scan 360 (Fin (1/2)) (Fin (7/2))" "Fin (3/4)"]
    by (simp add: near_scan_summary literals fgt_def)
  have c: "control_loop (init\<lparr>lidar_data := Some (uniform_scan 360 (Fin 1) (Fin (7/2)))\<rparr>) (Fin (3/4)) =
     Inr (Some \<lparr>linear_x = round64 (12/100), angular_z = Fin 0\<rparr>,
          init\<lparr>lidar_data := Some (uniform_scan 360 (Fin 1) (Fin (7/2)))\<rparr>)"
    using exploring_tick [OF conf st scan, of "uniform_scan 360 (Fin 1) (Fin (7/2))" "Fin (3/4)"]
    by (simp add: near_scan_summary lit_0_3 lit_0_7)
  from z a b c show ?thesis
    by (simp add: configured_init) (simp add: init_def)
qed

section \<open>Driving straight\<close>

lemma flt_of_fge:
  assumes "fge f (Fin c)" and "b \<le> c"
  shows "\<not> flt f (Fin b)"
  using assms by (cases f) (auto simp: fge_def fle_def)

text \<open>
  C9. When the front distance of the current scan is at least 0.7, any number of ticks
  in state \<open>EXPLORING\<close> on that scan publishes \<open>{linear = 0.12, angular = 0}\<close> every
  time and leaves the node, so its state and its timer, as it was.
\<close>

theorem straight_drive_repeats:
  assumes "configured self" and "state self = EXPLORING"
    and "get_safe_directions self = Inr (Some s)"
    and "fge (front s) (round64 (7/10))"
  shows "spin self (map Tick rnds) =
           Inr (replicate (length rnds) \<lparr>linear_x = round64 (12/100), angular_z = Fin 0\<rparr>, self)"
proof -
  from assms(1) have conf: "min_distance self = round64 (3/10)" "safe_distance self = round64 (7/10)"
    "forward_speed self = round64 (12/100)"
    by (simp_all add: configured_def)
  have far: "\<not> flt (front s) (round64 (3/10))" "\<not> flt (front s) (round64 (7/10))"
    using assms(4) flt_of_fge [of "front s" "3152519739159347 / 2^52"]
    by (simp_all add: lit_0_3 lit_0_7)
  have tick: "control_loop self rnd =
      Inr (Some \<lparr>linear_x = round64 (12/100), angular_z = Fin 0\<rparr>, self)" for rnd
    using control_loop_EXPLORING [OF assms(3,2), of rnd] far by (simp add: conf)
  show ?thesis
    by (induction rnds) (simp_all add: tick)
qed


theorem straight_drive_repeats_witness:
  "configured (init\<lparr>lidar_data := Some (uniform_scan 360 (Fin 1) (Fin (7/2)))\<rparr>) \<and>
   state (init\<lparr>lidar_data := Some (uniform_scan 360 (Fin 1) (Fin (7/2)))\<rparr>) = EXPLORING \<and>
   get_safe_directions (init\<lparr>lidar_data := Some (uniform_scan 360 (Fin 1) (Fin (7/2)))\<rparr>) =
     Inr (Some \<lparr>front = Fin 1, left = Fin 1, right = Fin 1,
                 left_better = False, right_better = False, equal_space = True\<rparr>) \<and>
   fge (Fin 1) (round64 (7/10)) \<and>
   spin (init\<lparr>lidar_data := Some (uniform_scan 360 (Fin 1) (Fin (7/2)))\<rparr>)
        [Tick (Fin (1/4)), Tick (Fin (3/4)), Tick (Fin 0)] =
     Inr ([\<lparr>linear_x = round64 (12/100), angular_z = Fin 0\<rparr>,
           \<lparr>linear_x = round64 (12/100), angular_z = Fin 0\<rparr>,
           \<lparr>linear_x = round64 (12/100), angular_z = Fin 0\<rparr>],
          init\<lparr>lidar_data := Some (uniform_scan 360 (Fin 1) (Fin (7/2)))\<rparr>)"
proof -
  let ?w = "init\<lparr>lidar_data := Some (uniform_scan 360 (Fin 1) (Fin (7/2)))\<rparr>"
  let ?s = "\<lparr>front = Fin 1, left = Fin 1, right = Fin 1,
                 left_better = False, right_better = False, equal_space = True\<rparr>"
  have conf: "configured ?w" by (simp add: configured_init)
  have st: "state ?w = EXPLORING" by (simp add: init_def)
  have sum: "get_safe_directions ?w = Inr (Some ?s)"
    by (simp add: near_scan_summary)
  have far: "fge (front ?s) (round64 (7/10))"
    by (simp add: fge_def fle_def lit_0_7)
  from straight_drive_repeats [OF conf st sum far, of "[Fin (1/4), Fin (3/4), Fin 0]"]
  have "spin ?w [Tick (Fin (1/4)), Tick (Fin (3/4)), Tick (Fin 0)] =
     Inr ([\<lparr>linear_x = round64 (12/100), angular_z = Fin 0\<rparr>,
           \<lparr>linear_x = round64 (12/100), angular_z = Fin 0\<rparr>,
           \<lparr>linear_x = round64 (12/100), angular_z = Fin 0\<rparr>], ?w)"
    by (simp add: numeral_3_eq_3)
  with conf st sum far show ?thesis by simp
qed

section \<open>Backing up\<close>

text \<open>
  C10 fails when one of the two scans has no samples: of two ticks in state
  \<open>BACKING_UP\<close> with the same timer, the one on a scan with samples publishes
  \<open>{linear = -0.1, angular = 0}\<close> and advances the timer, the one on the empty scan raises
  \<open>ZeroDivisionError\<close> and publishes nothing. The scan matters in no other way: on every
  scan that has samples the command is \<open>{linear = -0.1, angular = 0}\<close>, and the next state
  and timer are those that the old timer alone determines, whatever the samples, the
  draw and the two thresholds are.
\<close>

theorem backing_up_tick:
  assumes "state self = BACKING_UP" and "backup_speed self = fneg (round64 (1/10))"
    and "lidar_data self = Some d"
  shows "control_loop self rnd =
    (if ranges d = [] then Inl ZeroDivisionError
     else Inr (Some \<lparr>linear_x = fneg (round64 (1/10)), angular_z = Fin 0\<rparr>,
               if fge (fadd (backup_time self) (round64 (1/10))) (round64 (15/10))
               then self\<lparr>backup_time := fadd (backup_time self) (round64 (1/10)), state := TURNING\<rparr>
               else self\<lparr>backup_time := fadd (backup_time self) (round64 (1/10))\<rparr>))"
proof (cases "ranges d = []")
  case True
  with control_loop_raises [OF assms(3)] show ?thesis by simp
next
  case False
  from get_safe_directions_nonempty [OF assms(3) False] obtain s where
    s: "get_safe_directions self = Inr (Some s)" by blast
  from control_loop_BACKING_UP [OF s assms(1), of rnd] assms(2) False show ?thesis
    by simp
qed

theorem backing_up_tick_witness:
  "state (init\<lparr>state := BACKING_UP, backup_time := Fin (1/2),
           lidar_data := Some (uniform_scan 360 (Fin 1) (Fin (7/2)))\<rparr>) = BACKING_UP \<and>
   backup_time (init\<lparr>state := BACKING_UP, backup_time := Fin (1/2),
           lidar_data := Some (uniform_scan 360 (Fin 1) (Fin (7/2)))\<rparr>) =
   backup_time (init\<lparr>state := BACKING_UP, backup_time := Fin (1/2),
           lidar_data := Some \<lparr>ranges = [], range_max = Fin (7/2)\<rparr>\<rparr>) \<and>
   control_loop (init\<lparr>state := BACKING_UP, backup_time := Fin (1/2),
                     lidar_data := Some (uniform_scan 360 (Fin 1) (Fin (7/2)))\<rparr>) (Fin (1/4)) =
     Inr (Some \<lparr>linear_x = fneg (round64 (1/10)), angular_z = Fin 0\<rparr>,
          init\<lparr>state := BACKING_UP,
               backup_time := fadd (Fin (1/2)) (round64 (1/10)),
               lidar_data := Some (uniform_scan 360 (Fin 1) (Fin (7/2)))\<rparr>) \<and>
   control_loop (init\<lparr>state := BACKING_UP, backup_time := Fin (1/2),
                     lidar_data := Some \<lparr>ranges = [], range_max = Fin (7/2)\<rparr>\<rparr>) (Fin (1/4)) =
     Inl ZeroDivisionError"
proof -
  let ?a = "init\<lparr>state := BACKING_UP, backup_time := Fin (1/2),
                        lidar_data := Some (uniform_scan 360 (Fin 1) (Fin (7/2)))\<rparr>"
  let ?b = "init\<lparr>state := BACKING_UP, backup_time := Fin (1/2),
                        lidar_data := Some \<lparr>ranges = [], range_max = Fin (7/2)\<rparr>\<rparr>"
  have early: "\<not> fge (fadd (Fin (1/2)) (round64 (1/10))) (round64 (15/10))"
    by (simp add: literals) (simp add: round64_eval fge_def fle_def)
  have a: "control_loop ?a (Fin (1/4)) =
     Inr (Some \<lparr>linear_x = fneg (round64 (1/10)), angular_z = Fin 0\<rparr>,
          init\<lparr>state := BACKING_UP,
               backup_time := fadd (Fin (1/2)) (round64 (1/10)),
               lidar_data := Some (uniform_scan 360 (Fin 1) (Fin (7/2)))\<rparr>)"
    using backing_up_tick [of ?a "uniform_scan 360 (Fin 1) (Fin (7/2))" "Fin (1/4)"] early
    by (simp add: init_def)
  have b: "control_loop ?b (Fin (1/4)) = Inl ZeroDivisionError"
    using backing_up_tick [of ?b "\<lparr>ranges = [], range_max = Fin (7/2)\<rparr>" "Fin (1/4)"]
    by (simp add: init_def)
  from a b show ?thesis by simp
qed

section \<open>A scan without samples\<close>

text \<open>
  C7 fails on a scan that has no samples: the modulo by the number of samples raises
  \<open>ZeroDivisionError\<close> in \<^verbatim>\<open>get_safe_directions\<close>, in every state of the node, the
  exception leaves \<^verbatim>\<open>control_loop\<close>, and the run ends.
\<close>

theorem empty_scan_raises:
  "control_loop (self\<lparr>lidar_data := Some \<lparr>ranges = [], range_max = M\<rparr>\<rparr>) rnd =
     Inl ZeroDivisionError \<and>
   spin self (Scan \<lparr>ranges = [], range_max = M\<rparr> # Tick rnd # evs) = Inl ZeroDivisionError"
proof -
  have "control_loop (self\<lparr>lidar_data := Some \<lparr>ranges = [], range_max = M\<rparr>\<rparr>) rnd =
     Inl ZeroDivisionError"
    by (rule control_loop_raises [of _ "\<lparr>ranges = [], range_max = M\<rparr>"]) simp_all
  then show ?thesis
    by (simp add: lidar_callback_def)
qed

section \<open>The shared timer\<close>

lemma add_tenth: "fadd (Fin a) (round64 (1/10)) = round64 (a + 3602879701896397 / 2^55)"
  by (simp add: lit_0_1)

lemma timer_after_values:
  "timer_after 1 = Fin (3602879701896397 / 2^55)"
  "timer_after 2 = Fin (3602879701896397 / 2^54)"
  "timer_after 3 = Fin (1351079888211149 / 2^52)"
  "timer_after 4 = Fin (3602879701896397 / 2^53)"
  "timer_after 5 = Fin (1 / 2^1)"
  "timer_after 6 = Fin (5404319552844595 / 2^53)"
  "timer_after 7 = Fin (3152519739159347 / 2^52)"
  "timer_after 8 = Fin (7205759403792793 / 2^53)"
  "timer_after 9 = Fin (2026619832316723 / 2^51)"
  "timer_after 10 = Fin (9007199254740991 / 2^53)"
  "timer_after 11 = Fin (4953959590107545 / 2^52)"
  "timer_after 12 = Fin (5404319552844595 / 2^52)"
  "timer_after 13 = Fin (5854679515581645 / 2^52)"
  "timer_after 14 = Fin (6305039478318695 / 2^52)"
  "timer_after 15 = Fin (6755399441055745 / 2^52)"
  "timer_after 16 = Fin (7205759403792795 / 2^52)"
  "timer_after 17 = Fin (7656119366529845 / 2^52)"
  "timer_after 18 = Fin (8106479329266895 / 2^52)"
  "timer_after 19 = Fin (8556839292003945 / 2^52)"
  "timer_after 20 = Fin (4503599627370497 / 2^51)"
  "timer_after 21 = Fin (2364389804369511 / 2^50)"
  "timer_after 22 = Fin (4953959590107547 / 2^51)"
  "timer_after 23 = Fin (647392446434509 / 2^48)"
  "timer_after 24 = Fin (5404319552844597 / 2^51)"
  "timer_after 25 = Fin (2814749767106561 / 2^50)"
  "timer_after 26 = Fin (5854679515581647 / 2^51)"
  "timer_after 27 = Fin (1519964874237543 / 2^49)"
  "timer_after 28 = Fin (6305039478318697 / 2^51)"
  "timer_after 29 = Fin (3265109729843611 / 2^50)"
  "timer_after 30 = Fin (6755399441055747 / 2^51)"
  "timer_after 31 = Fin (436286213901517 / 2^47)"
  "timer_after 32 = Fin (7205759403792797 / 2^51)"
  "timer_after 33 = Fin (3715469692580661 / 2^50)"
  "timer_after 34 = Fin (7656119366529847 / 2^51)"
  "timer_after 35 = Fin (1970324836974593 / 2^49)"
proof -
  have s1: "timer_after 1 = fadd (timer_after 0) (round64 (1/10))"
    by (simp add: eval_nat_numeral)
  have t1: "timer_after 1 = Fin (3602879701896397 / 2^55)"
    unfolding s1 timer_after.simps(1) add_tenth by (simp add: round64_eval)
  have s2: "timer_after 2 = fadd (timer_after 1) (round64 (1/10))"
    by (simp add: eval_nat_numeral)
  have t2: "timer_after 2 = Fin (3602879701896397 / 2^54)"
    unfolding s2 t1 add_tenth by (simp add: round64_eval)
  have s3: "timer_after 3 = fadd (timer_after 2) (round64 (1/10))"
    using timer_after.simps(2) [of 2] by simp
  have t3: "timer_after 3 = Fin (1351079888211149 / 2^52)"
    unfolding s3 t2 add_tenth by (simp add: round64_eval)
  have s4: "timer_after 4 = fadd (timer_after 3) (round64 (1/10))"
    using timer_after.simps(2) [of 3] by simp
  have t4: "timer_after 4 = Fin (3602879701896397 / 2^53)"
    unfolding s4 t3 add_tenth by (simp add: round64_eval)
  have s5: "timer_after 5 = fadd (timer_after 4) (round64 (1/10))"
    using timer_after.simps(2) [of 4] by simp
  have t5: "timer_after 5 = Fin (1 / 2^1)"
    unfolding s5 t4 add_tenth by (simp add: round64_eval)
  have s6: "timer_after 6 = fadd (timer_after 5) (round64 (1/10))"
    using timer_after.simps(2) [of 5] by simp
  have t6: "timer_after 6 = Fin (5404319552844595 / 2^53)"
    unfolding s6 t5 add_tenth by (simp add: round64_eval)
  have s7: "timer_after 7 = fadd (timer_after 6) (round64 (1/10))"
    using timer_after.simps(2) [of 6] by simp
  have t7: "timer_after 7 = Fin (3152519739159347 / 2^52)"
    unfolding s7 t6 add_tenth by (simp add: round64_eval)
  have s8: "timer_after 8 = fadd (timer_after 7) (round64 (1/10))"
    using timer_after.simps(2) [of 7] by simp
  have t8: "timer_after 8 = Fin (7205759403792793 / 2^53)"
    unfolding s8 t7 add_tenth by (simp add: round64_eval)
  have s9: "timer_after 9 = fadd (timer_after 8) (round64 (1/10))"
    using timer_after.simps(2) [of 8] by simp
  have t9: "timer_after 9 = Fin (2026619832316723 / 2^51)"
    unfolding s9 t8 add_tenth by (simp add: round64_eval)
  have s10: "timer_after 10 = fadd (timer_after 9) (round64 (1/10))"
    using timer_after.simps(2) [of 9] by simp
  have t10: "timer_after 10 = Fin (9007199254740991 / 2^53)"
    unfolding s10 t9 add_tenth by (simp add: round64_eval)
  have s11: "timer_after 11 = fadd (timer_after 10) (round64 (1/10))"
    using timer_after.simps(2) [of 10] by simp
  have t11: "timer_after 11 = Fin (4953959590107545 / 2^52)"
    unfolding s11 t10 add_tenth by (simp add: round64_eval)
  have s12: "timer_after 12 = fadd (timer_after 11) (round64 (1/10))"
    using timer_after.simps(2) [of 11] by simp
  have t12: "timer_after 12 = Fin (5404319552844595 / 2^52)"
    unfolding s12 t11 add_tenth by (simp add: round64_eval)
  have s13: "timer_after 13 = fadd (timer_after 12) (round64 (1/10))"
    using timer_after.simps(2) [of 12] by simp
  have t13: "timer_after 13 = Fin (5854679515581645 / 2^52)"
    unfolding s13 t12 add_tenth by (simp add: round64_eval)
  have s14: "timer_after 14 = fadd (timer_after 13) (round64 (1/10))"
    using timer_after.simps(2) [of 13] by simp
  have t14: "timer_after 14 = Fin (6305039478318695 / 2^52)"
    unfolding s14 t13 add_tenth by (simp add: round64_eval)
  have s15: "timer_after 15 = fadd (timer_after 14) (round64 (1/10))"
    using timer_after.simps(2) [of 14] by simp
  have t15: "timer_after 15 = Fin (6755399441055745 / 2^52)"
    unfolding s15 t14 add_tenth by (simp add: round64_eval)
  have s16: "timer_after 16 = fadd (timer_after 15) (round64 (1/10))"
    using timer_after.simps(2) [of 15] by simp
  have t16: "timer_after 16 = Fin (7205759403792795 / 2^52)"
    unfolding s16 t15 add_tenth by (simp add: round64_eval)
  have s17: "timer_after 17 = fadd (timer_after 16) (round64 (1/10))"
    using timer_after.simps(2) [of 16] by simp
  have t17: "timer_after 17 = Fin (7656119366529845 / 2^52)"
    unfolding s17 t16 add_tenth by (simp add: round64_eval)
  have s18: "timer_after 18 = fadd (timer_after 17) (round64 (1/10))"
    using timer_after.simps(2) [of 17] by simp
  have t18: "timer_after 18 = Fin (8106479329266895 / 2^52)"
    unfolding s18 t17 add_tenth by (simp add: round64_eval)
  have s19: "timer_after 19 = fadd (timer_after 18) (round64 (1/10))"
    using timer_after.simps(2) [of 18] by simp
  have t19: "timer_after 19 = Fin (8556839292003945 / 2^52)"
    unfolding s19 t18 add_tenth by (simp add: round64_eval)
  have s20: "timer_after 20 = fadd (timer_after 19) (round64 (1/10))"
    using timer_after.simps(2) [of 19] by simp
  have t20: "timer_after 20 = Fin (4503599627370497 / 2^51)"
    unfolding s20 t19 add_tenth by (simp add: round64_eval)
  have s21: "timer_after 21 = fadd (timer_after 20) (round64 (1/10))"
    using timer_after.simps(2) [of 20] by simp
  have t21: "timer_after 21 = Fin (2364389804369511 / 2^50)"
    unfolding s21 t20 add_tenth by (simp add: round64_eval)
  have s22: "timer_after 22 = fadd (timer_after 21) (round64 (1/10))"
    using timer_after.simps(2) [of 21] by simp
  have t22: "timer_after 22 = Fin (4953959590107547 / 2^51)"
    unfolding s22 t21 add_tenth by (simp add: round64_eval)
  have s23: "timer_after 23 = fadd (timer_after 22) (round64 (1/10))"
    using timer_after.simps(2) [of 22] by simp
  have t23: "timer_after 23 = Fin (647392446434509 / 2^48)"
    unfolding s23 t22 add_tenth by (simp add: round64_eval)
  have s24: "timer_after 24 = fadd (timer_after 23) (round64 (1/10))"
    using timer_after.simps(2) [of 23] by simp
  have t24: "timer_after 24 = Fin (5404319552844597 / 2^51)"
    unfolding s24 t23 add_tenth by (simp add: round64_eval)
  have s25: "timer_after 25 = fadd (timer_after 24) (round64 (1/10))"
    using timer_after.simps(2) [of 24] by simp
  have t25: "timer_after 25 = Fin (2814749767106561 / 2^50)"
    unfolding s25 t24 add_tenth by (simp add: round64_eval)
  have s26: "timer_after 26 = fadd (timer_after 25) (round64 (1/10))"
    using timer_after.simps(2) [of 25] by simp
  have t26: "timer_after 26 = Fin (5854679515581647 / 2^51)"
    unfolding s26 t25 add_tenth by (simp add: round64_eval)
  have s27: "timer_after 27 = fadd (timer_after 26) (round64 (1/10))"
    using timer_after.simps(2) [of 26] by simp
  have t27: "timer_after 27 = Fin (1519964874237543 / 2^49)"
    unfolding s27 t26 add_tenth by (simp add: round64_eval)
  have s28: "timer_after 28 = fadd (timer_after 27) (round64 (1/10))"
    using timer_after.simps(2) [of 27] by simp
  have t28: "timer_after 28 = Fin (6305039478318697 / 2^51)"
    unfolding s28 t27 add_tenth by (simp add: round64_eval)
  have s29: "timer_after 29 = fadd (timer_after 28) (round64 (1/10))"
    using timer_after.simps(2) [of 28] by simp
  have t29: "timer_after 29 = Fin (3265109729843611 / 2^50)"
    unfolding s29 t28 add_tenth by (simp add: round64_eval)
  have s30: "timer_after 30 = fadd (timer_after 29) (round64 (1/10))"
    using timer_after.simps(2) [of 29] by simp
  have t30: "timer_after 30 = Fin (6755399441055747 / 2^51)"
    unfolding s30 t29 add_tenth by (simp add: round64_eval)
  have s31: "timer_after 31 = fadd (timer_after 30) (round64 (1/10))"
    using timer_after.simps(2) [of 30] by simp
  have t31: "timer_after 31 = Fin (436286213901517 / 2^47)"
    unfolding s31 t30 add_tenth by (simp add: round64_eval)
  have s32: "timer_after 32 = fadd (timer_after 31) (round64 (1/10))"
    using timer_after.simps(2) [of 31] by simp
  have t32: "timer_after 32 = Fin (7205759403792797 / 2^51)"
    unfolding s32 t31 add_tenth by (simp add: round64_eval)
  have s33: "timer_after 33 = fadd (timer_after 32) (round64 (1/10))"
    using timer_after.simps(2) [of 32] by simp
  have t33: "timer_after 33 = Fin (3715469692580661 / 2^50)"
    unfolding s33 t32 add_tenth by (simp add: round64_eval)
  have s34: "timer_after 34 = fadd (timer_after 33) (round64 (1/10))"
    using timer_after.simps(2) [of 33] by simp
  have t34: "timer_after 34 = Fin (7656119366529847 / 2^51)"
    unfolding s34 t33 add_tenth by (simp add: round64_eval)
  have s35: "timer_after 35 = fadd (timer_after 34) (round64 (1/10))"
    using timer_after.simps(2) [of 34] by simp
  have t35: "timer_after 35 = Fin (1970324836974593 / 2^49)"
    unfolding s35 t34 add_tenth by (simp add: round64_eval)
  show
    "timer_after 1 = Fin (3602879701896397 / 2^55)"
    "timer_after 2 = Fin (3602879701896397 / 2^54)"
    "timer_after 3 = Fin (1351079888211149 / 2^52)"
    "timer_after 4 = Fin (3602879701896397 / 2^53)"
    "timer_after 5 = Fin (1 / 2^1)"
    "timer_after 6 = Fin (5404319552844595 / 2^53)"
    "timer_after 7 = Fin (3152519739159347 / 2^52)"
    "timer_after 8 = Fin (7205759403792793 / 2^53)"
    "timer_after 9 = Fin (2026619832316723 / 2^51)"
    "timer_after 10 = Fin (9007199254740991 / 2^53)"
    "timer_after 11 = Fin (4953959590107545 / 2^52)"
    "timer_after 12 = Fin (5404319552844595 / 2^52)"
    "timer_after 13 = Fin (5854679515581645 / 2^52)"
    "timer_after 14 = Fin (6305039478318695 / 2^52)"
    "timer_after 15 = Fin (6755399441055745 / 2^52)"
    "timer_after 16 = Fin (7205759403792795 / 2^52)"
    "timer_after 17 = Fin (7656119366529845 / 2^52)"
    "timer_after 18 = Fin (8106479329266895 / 2^52)"
    "timer_after 19 = Fin (8556839292003945 / 2^52)"
    "timer_after 20 = Fin (4503599627370497 / 2^51)"
    "timer_after 21 = Fin (2364389804369511 / 2^50)"
    "timer_after 22 = Fin (4953959590107547 / 2^51)"
    "timer_after 23 = Fin (647392446434509 / 2^48)"
    "timer_after 24 = Fin (5404319552844597 / 2^51)"
    "timer_after 25 = Fin (2814749767106561 / 2^50)"
    "timer_after 26 = Fin (5854679515581647 / 2^51)"
    "timer_after 27 = Fin (1519964874237543 / 2^49)"
    "timer_after 28 = Fin (6305039478318697 / 2^51)"
    "timer_after 29 = Fin (3265109729843611 / 2^50)"
    "timer_after 30 = Fin (6755399441055747 / 2^51)"
    "timer_after 31 = Fin (436286213901517 / 2^47)"
    "timer_after 32 = Fin (7205759403792797 / 2^51)"
    "timer_after 33 = Fin (3715469692580661 / 2^50)"
    "timer_after 34 = Fin (7656119366529847 / 2^51)"
    "timer_after 35 = Fin (1970324836974593 / 2^49)"
    by (fact t1 t2 t3 t4 t5 t6 t7 t8 t9 t10 t11 t12 t13 t14 t15 t16 t17 t18 t19 t20 t21 t22 t23 t24 t25 t26 t27 t28 t29 t30 t31 t32 t33 t34 t35)+
qed


lemma timer_reaches:
  assumes "j \<le> 35"
  shows "fge (timer_after j) (round64 (15/10)) = (15 \<le> j) \<and>
         fge (timer_after j) (round64 (35/10)) = (35 \<le> j)"
proof -
  from assms consider "j = 0" | "j = 1" | "j \<in> {2..<36}" by fastforce
  then show ?thesis
  proof cases
    case 1
    then show ?thesis by (simp add: literals fge_def fle_def)
  next
    case 2
    show ?thesis
      unfolding 2 timer_after_values(1) by (simp add: literals fge_def fle_def)
  next
    case 3
    then have "j \<in> set [2..<36]" by (simp only: set_upt)
    then have "j = 2 \<or> j = 3 \<or> j = 4 \<or> j = 5 \<or> j = 6 \<or> j = 7 \<or> j = 8 \<or>
      j = 9 \<or> j = 10 \<or> j = 11 \<or> j = 12 \<or> j = 13 \<or> j = 14 \<or> j = 15 \<or> j = 16 \<or> j = 17 \<or>
      j = 18 \<or> j = 19 \<or> j = 20 \<or> j = 21 \<or> j = 22 \<or> j = 23 \<or> j = 24 \<or> j = 25 \<or> j = 26 \<or>
      j = 27 \<or> j = 28 \<or> j = 29 \<or> j = 30 \<or> j = 31 \<or> j = 32 \<or> j = 33 \<or> j = 34 \<or> j = 35"
      by simp
    then show ?thesis
      by (elim disjE) (simp_all add: timer_after_values literals fge_def fle_def)
  qed
qed

lemma tick_advances:
  assumes "state self = phase_after k" and "backup_time self = timer_after k" and "k < 35"
    and "lidar_data self = Some d" and "ranges d \<noteq> []"
  shows "\<exists>cmd self'. control_loop self rnd = Inr (Some cmd, self') \<and>
           state self' = phase_after (Suc k) \<and> backup_time self' = timer_after (Suc k) \<and>
           lidar_data self' = lidar_data self"
proof -
  from get_safe_directions_nonempty [OF assms(4,5)] obtain s where
    s: "get_safe_directions self = Inr (Some s)" by blast
  from assms(3) have reach: "fge (timer_after (Suc k)) (round64 (15/10)) = (15 \<le> Suc k)"
      "fge (timer_after (Suc k)) (round64 (35/10)) = (35 \<le> Suc k)"
    using timer_reaches [of "Suc k"] by simp_all
  show ?thesis
  proof (cases "k < 15")
    case True
    with assms(1) have st: "state self = BACKING_UP" by (simp add: phase_after_def)
    from control_loop_BACKING_UP [OF s st, of rnd] reach(1) True assms(2,4) st show ?thesis
      by (auto simp: phase_after_def)
  next
    case False
    with assms(1,3) have st: "state self = TURNING" by (simp add: phase_after_def)
    from control_loop_TURNING [OF s st, of rnd] reach(2) False assms(2,3,4) st show ?thesis
      by (auto simp: phase_after_def)
  qed
qed

lemma spin_raises:
  assumes "lidar_data self = Some d" and "\<not> ticks_have_samples d evs"
  shows "spin self evs = Inl ZeroDivisionError"
  using assms
proof (induction evs arbitrary: self d)
  case Nil
  then show ?case by simp
next
  case (Cons ev evs)
  show ?case
  proof (cases ev)
    case (Scan msg)
    with Cons.prems have "lidar_data (lidar_callback self msg) = Some msg"
      "\<not> ticks_have_samples msg evs"
      by (simp_all add: lidar_callback_def)
    from Cons.IH [OF this] Scan show ?thesis by simp
  next
    case (Tick rnd)
    show ?thesis
    proof (cases "ranges d = []")
      case True
      from control_loop_raises [OF Cons.prems(1) True] Tick show ?thesis by simp
    next
      case False
      from control_loop_returns [OF Cons.prems(1) False] obtain cmd self1 where
        step: "control_loop self rnd = Inr (Some cmd, self1)" by blast
      from control_loop_keeps_scan [OF step] Cons.prems(1) have "lidar_data self1 = Some d"
        by simp
      moreover from Cons.prems(2) Tick False have "\<not> ticks_have_samples d evs" by simp
      ultimately have "spin self1 evs = Inl ZeroDivisionError" by (rule Cons.IH)
      with step Tick show ?thesis by simp
    qed
  qed
qed

lemma spin_from_phase:
  assumes "state self = phase_after k" and "backup_time self = timer_after k"
    and "lidar_data self = Some d" and "ticks_have_samples d evs" and "k + ticks evs \<le> 35"
  shows "\<exists>cmds self'. spin self evs = Inr (cmds, self') \<and> length cmds = ticks evs \<and>
           state self' = phase_after (k + ticks evs) \<and>
           backup_time self' = timer_after (k + ticks evs)"
  using assms
proof (induction evs arbitrary: self k d)
  case Nil
  then show ?case by simp
next
  case (Cons ev evs)
  show ?case
  proof (cases ev)
    case (Scan msg)
    with Cons.prems have "state (lidar_callback self msg) = phase_after k"
      "backup_time (lidar_callback self msg) = timer_after k"
      "lidar_data (lidar_callback self msg) = Some msg"
      "ticks_have_samples msg evs" "k + ticks evs \<le> 35"
      by (simp_all add: lidar_callback_def)
    from Cons.IH [OF this] Scan show ?thesis by simp
  next
    case (Tick rnd)
    with Cons.prems have k: "k < 35" and ne: "ranges d \<noteq> []"
      and rest: "ticks_have_samples d evs" "Suc k + ticks evs \<le> 35"
      by simp_all
    from tick_advances [OF Cons.prems(1,2) k Cons.prems(3) ne, of rnd] obtain cmd self1 where
      step: "control_loop self rnd = Inr (Some cmd, self1)"
        "state self1 = phase_after (Suc k)" "backup_time self1 = timer_after (Suc k)"
        "lidar_data self1 = Some d"
      using Cons.prems(3) by auto
    from Cons.IH [OF step(2,3,4) rest] obtain cmds self2 where
      "spin self1 evs = Inr (cmds, self2)" "length cmds = ticks evs"
      "state self2 = phase_after (Suc k + ticks evs)"
      "backup_time self2 = timer_after (Suc k + ticks evs)"
      by blast
    with step(1) Tick show ?thesis by simp
  qed
qed

lemma ticks_append [simp]: "ticks (xs @ ys) = ticks xs + ticks ys"
  by (induction xs rule: ticks.induct) simp_all

lemma ticks_replicate [simp]: "ticks (replicate n (Tick rnd)) = n"
  by (induction n) simp_all

lemma ticks_have_samples_replicate [simp]:
  "ticks_have_samples d (replicate n (Tick rnd) @ evs) =
     ((n = 0 \<or> ranges d \<noteq> []) \<and> ticks_have_samples d evs)"
  by (induction n) auto

lemma ticks_have_samples_replicate_only [simp]:
  "ticks_have_samples d (replicate n (Tick rnd)) = (n = 0 \<or> ranges d \<noteq> [])"
  using ticks_have_samples_replicate [of d n rnd "[]"] by simp

lemma entering_backing_up:
  assumes "state self0 = EXPLORING" and "control_loop self0 rnd = Inr (out, self)"
    and "state self = BACKING_UP"
  shows "backup_time self = Fin 0 \<and> lidar_data self \<noteq> None"
proof -
  from control_loop_result [OF assms(2)] assms(1,3) obtain s where
    s: "get_safe_directions self0 = Inr (Some s)" by auto
  from assms(2,3,1) have "backup_time self = Fin 0"
    unfolding control_loop_EXPLORING [OF s assms(1)] by (auto split: if_splits)
  moreover from summary_needs_scan [OF s] control_loop_keeps_scan [OF assms(2)]
  have "lidar_data self \<noteq> None" by simp
  ultimately show ?thesis by simp
qed

text \<open>
  C2. Every run that starts in state \<open>BACKING_UP\<close> with the timer at 0, as the tick that
  enters the state leaves it, each tick adding the float 0.1 to the timer. A run in
  which some tick finds a scan without samples ends there with \<open>ZeroDivisionError\<close>.
  Every other run returns, and after \<open>n\<close> ticks the state is \<open>BACKING_UP\<close> while
  \<open>n < 15\<close>, \<open>TURNING\<close> while \<open>15 \<le> n < 35\<close>, and \<open>EXPLORING\<close> at \<open>n = 35\<close>. So
  the node leaves \<open>BACKING_UP\<close> on its 15th tick and \<open>TURNING\<close> on the 35th tick since
  the entry. The timer is the running float sum throughout: it is 1.5000000000000002
  when the node starts turning (it is not set back to 0), and 3.5000000000000018 when
  it resumes exploring.
\<close>

theorem backing_up_and_turning_ticks:
  assumes "state self = BACKING_UP" and "backup_time self = Fin 0"
    and "lidar_data self = Some d" and "ticks evs \<le> 35"
  shows "case spin self evs of
           Inl e \<Rightarrow> e = ZeroDivisionError \<and> \<not> ticks_have_samples d evs
         | Inr (cmds, self') \<Rightarrow>
             ticks_have_samples d evs \<and> length cmds = ticks evs \<and>
             state self' = (if ticks evs < 15 then BACKING_UP
                            else if ticks evs < 35 then TURNING else EXPLORING) \<and>
             backup_time self' = timer_after (ticks evs) \<and>
             (ticks evs = 15 \<longrightarrow> backup_time self' = Fin (6755399441055745 / 2^52)) \<and>
             (ticks evs = 35 \<longrightarrow> backup_time self' = Fin (1970324836974593 / 2^49))"
proof (cases "ticks_have_samples d evs")
  case True
  from assms(1,2) have "state self = phase_after 0" "backup_time self = timer_after 0"
    by (simp_all add: phase_after_def)
  from spin_from_phase [OF this assms(3) True] assms(4) True show ?thesis
    by (auto simp: phase_after_def timer_after_values)
next
  case False
  from spin_raises [OF assms(3) False] False show ?thesis by simp
qed

theorem backing_up_and_turning_ticks_witness:
  "state (init\<lparr>state := BACKING_UP, lidar_data := Some (uniform_scan 360 (Fin 1) (Fin (7/2)))\<rparr>)
     = BACKING_UP \<and>
   backup_time (init\<lparr>state := BACKING_UP, lidar_data := Some (uniform_scan 360 (Fin 1) (Fin (7/2)))\<rparr>)
     = Fin 0 \<and>
   (\<exists>cmds self'.
      spin (init\<lparr>state := BACKING_UP, lidar_data := Some (uniform_scan 360 (Fin 1) (Fin (7/2)))\<rparr>)
        (replicate 14 (Tick (Fin 0))) = Inr (cmds, self') \<and>
      length cmds = 14 \<and> state self' = BACKING_UP) \<and>
   (\<exists>cmds self'.
      spin (init\<lparr>state := BACKING_UP, lidar_data := Some (uniform_scan 360 (Fin 1) (Fin (7/2)))\<rparr>)
        (replicate 15 (Tick (Fin 0))) = Inr (cmds, self') \<and>
      length cmds = 15 \<and> state self' = TURNING \<and>
      backup_time self' = Fin (6755399441055745 / 2^52)) \<and>
   (\<exists>cmds self'.
      spin (init\<lparr>state := BACKING_UP, lidar_data := Some (uniform_scan 360 (Fin 1) (Fin (7/2)))\<rparr>)
        (replicate 15 (Tick (Fin 0)) @ Scan \<lparr>ranges = [], range_max = Fin (7/2)\<rparr> #
         Scan (uniform_scan 360 (Fin (1/4)) (Fin (7/2))) #
         replicate 19 (Tick (Fin (3/4)))) = Inr (cmds, self') \<and>
      length cmds = 34 \<and> state self' = TURNING) \<and>
   (\<exists>cmds self'.
      spin (init\<lparr>state := BACKING_UP, lidar_data := Some (uniform_scan 360 (Fin 1) (Fin (7/2)))\<rparr>)
        (replicate 15 (Tick (Fin 0)) @ Scan \<lparr>ranges = [], range_max = Fin (7/2)\<rparr> #
         Scan (uniform_scan 360 (Fin (1/4)) (Fin (7/2))) #
         replicate 20 (Tick (Fin (3/4)))) = Inr (cmds, self') \<and>
      length cmds = 35 \<and> state self' = EXPLORING \<and>
      backup_time self' = Fin (1970324836974593 / 2^49)) \<and>
   spin (init\<lparr>state := BACKING_UP, lidar_data := Some (uniform_scan 360 (Fin 1) (Fin (7/2)))\<rparr>)
     (replicate 3 (Tick (Fin 0)) @ Scan \<lparr>ranges = [], range_max = Fin (7/2)\<rparr> #
      replicate 12 (Tick (Fin 0))) = Inl ZeroDivisionError"
proof -
  let ?d = "uniform_scan 360 (Fin 1) (Fin (7/2))"
  let ?w = "init\<lparr>state := BACKING_UP, lidar_data := Some ?d\<rparr>"
  have st: "state ?w = BACKING_UP" and t0: "backup_time ?w = Fin 0"
    and scan: "lidar_data ?w = Some ?d"
    by (simp_all add: init_def)
  note run = backing_up_and_turning_ticks [OF st t0 scan]
  from run [of "replicate 14 (Tick (Fin 0))"]
  have a: "\<exists>cmds self'. spin ?w (replicate 14 (Tick (Fin 0))) = Inr (cmds, self') \<and>
      length cmds = 14 \<and> state self' = BACKING_UP"
    by (cases "spin ?w (replicate 14 (Tick (Fin 0)))") auto
  from run [of "replicate 15 (Tick (Fin 0))"]
  have b: "\<exists>cmds self'. spin ?w (replicate 15 (Tick (Fin 0))) = Inr (cmds, self') \<and>
      length cmds = 15 \<and> state self' = TURNING \<and>
      backup_time self' = Fin (6755399441055745 / 2^52)"
    by (cases "spin ?w (replicate 15 (Tick (Fin 0)))") auto
  let ?e34 = "replicate 15 (Tick (Fin 0)) @ Scan \<lparr>ranges = [], range_max = Fin (7/2)\<rparr> #
         Scan (uniform_scan 360 (Fin (1/4)) (Fin (7/2))) # replicate 19 (Tick (Fin (3/4)))"
  from run [of ?e34]
  have c: "\<exists>cmds self'. spin ?w ?e34 = Inr (cmds, self') \<and> length cmds = 34 \<and>
      state self' = TURNING"
    by (cases "spin ?w ?e34") auto
  let ?e35 = "replicate 15 (Tick (Fin 0)) @ Scan \<lparr>ranges = [], range_max = Fin (7/2)\<rparr> #
         Scan (uniform_scan 360 (Fin (1/4)) (Fin (7/2))) # replicate 20 (Tick (Fin (3/4)))"
  from run [of ?e35]
  have d: "\<exists>cmds self'. spin ?w ?e35 = Inr (cmds, self') \<and> length cmds = 35 \<and>
      state self' = EXPLORING \<and> backup_time self' = Fin (1970324836974593 / 2^49)"
    by (cases "spin ?w ?e35") auto
  let ?bad = "replicate 3 (Tick (Fin 0)) @ Scan \<lparr>ranges = [], range_max = Fin (7/2)\<rparr> #
      replicate 12 (Tick (Fin 0))"
  from run [of ?bad]
  have e: "spin ?w ?bad = Inl ZeroDivisionError"
    by (cases "spin ?w ?bad") auto
  from st t0 a b c d e show ?thesis by blast
qed

section \<open>The sector indices\<close>

lemma mod_small: "list_all (\<lambda>i. i < N) xs \<Longrightarrow> map (\<lambda>i. i mod N) xs = xs" for N :: nat
  by (induction xs) simp_all

lemma raw_windows_below_360:
  "list_all (\<lambda>i. i < 360) front_indices" "list_all (\<lambda>i. i < 360) left_indices"
  "list_all (\<lambda>i. i < 360) right_indices"
  unfolding front_indices_def left_indices_def right_indices_def list_all_iff set_append set_upt
  by auto

lemma raw_windows_unchanged:
  assumes "360 \<le> N"
  shows "map (\<lambda>i. i mod N) front_indices = front_indices"
    "map (\<lambda>i. i mod N) left_indices = left_indices"
    "map (\<lambda>i. i mod N) right_indices = right_indices"
proof -
  have "list_all (\<lambda>i. i < N) xs" if "list_all (\<lambda>i. i < 360) xs" for xs :: "nat list"
    using that assms by (auto simp: list_all_iff)
  with raw_windows_below_360 show "map (\<lambda>i. i mod N) front_indices = front_indices"
    "map (\<lambda>i. i mod N) left_indices = left_indices"
    "map (\<lambda>i. i mod N) right_indices = right_indices"
    by (simp_all add: mod_small)
qed

text \<open>
  C1, as the code has it. For a scan of \<open>N > 0\<close> samples the three index lists are the
  fixed lists 0..29 followed by 330..359, 60..119 and 240..299, each index taken modulo
  \<open>N\<close>, so that every index is below \<open>N\<close>. Nothing is scaled: for every \<open>N\<close> of at
  least 360 the lists are these fixed lists themselves. For \<open>N = 360\<close> they are exactly
  the samples whose bearing is in the front, the left and the right window.
\<close>

theorem sector_indices_wrap:
  assumes "0 < N"
  shows "mod_indices front_indices N = Inr (map (\<lambda>i. i mod N) ([0..<30] @ [330..<360])) \<and>
         mod_indices left_indices N = Inr (map (\<lambda>i. i mod N) [60..<120]) \<and>
         mod_indices right_indices N = Inr (map (\<lambda>i. i mod N) [240..<300]) \<and>
         list_all (\<lambda>i. i < N) (map (\<lambda>i. i mod N) (front_indices @ left_indices @ right_indices)) \<and>
         (360 \<le> N \<longrightarrow>
            mod_indices front_indices N = Inr ([0..<30] @ [330..<360]) \<and>
            mod_indices left_indices N = Inr [60..<120] \<and>
            mod_indices right_indices N = Inr [240..<300]) \<and>
         (N = 360 \<longrightarrow>
            (\<forall>i<360. (i \<in> set ([0..<30] @ [330..<360])) = in_front_window (bearing 360 i)) \<and>
            (\<forall>i<360. (i \<in> set [60..<120]) = in_left_window (bearing 360 i)) \<and>
            (\<forall>i<360. (i \<in> set [240..<300]) = in_right_window (bearing 360 i)))"
proof -
  have in_range: "list_all (\<lambda>i. i < N) (map (\<lambda>i. i mod N) xs)" for xs
    using assms by (simp add: list_all_iff)
  have geo: "(\<forall>i<360. (i \<in> set ([0..<30] @ [330..<360])) = in_front_window (bearing 360 i)) \<and>
            (\<forall>i<360. (i \<in> set [60..<120]) = in_left_window (bearing 360 i)) \<and>
            (\<forall>i<360. (i \<in> set [240..<300]) = in_right_window (bearing 360 i))"
    unfolding set_append set_upt
    by (auto simp: bearing_def in_front_window_def in_left_window_def in_right_window_def)
  have a: "mod_indices front_indices N = Inr (map (\<lambda>i. i mod N) ([0..<30] @ [330..<360]))"
    "mod_indices left_indices N = Inr (map (\<lambda>i. i mod N) [60..<120])"
    "mod_indices right_indices N = Inr (map (\<lambda>i. i mod N) [240..<300])"
    using assms mod_indices_pos
    unfolding front_indices_def left_indices_def right_indices_def by blast+
  have b: "mod_indices front_indices N = Inr ([0..<30] @ [330..<360])"
    "mod_indices left_indices N = Inr [60..<120]"
    "mod_indices right_indices N = Inr [240..<300]" if "360 \<le> N"
    using raw_windows_unchanged [OF that] mod_indices_pos [OF assms]
    unfolding front_indices_def left_indices_def right_indices_def by metis+
  from a b in_range geo show ?thesis by blast
qed

theorem sector_indices_wrap_witness:
  "(0::nat) < 360 \<and>
   mod_indices front_indices 360 = Inr ([0..<30] @ [330..<360]) \<and>
   mod_indices left_indices 360 = Inr [60..<120] \<and>
   mod_indices right_indices 360 = Inr [240..<300] \<and>
   (0::nat) < 720 \<and>
   mod_indices front_indices 720 = Inr ([0..<30] @ [330..<360]) \<and>
   (0::nat) < 4 \<and>
   mod_indices left_indices 4 = Inr (map (\<lambda>i. i mod 4) [60..<120])"
proof -
  have "(0::nat) < 360" "(360::nat) \<le> 360" "(0::nat) < 720" "(360::nat) \<le> 720" "(0::nat) < 4"
    by simp_all
  with sector_indices_wrap [of 360] sector_indices_wrap [of 720] sector_indices_wrap [of 4]
  show ?thesis by blast
qed

text \<open>
  C1 as stated fails for \<open>N = 720\<close>: the front list is still 0..29 and 330..359. It
  contains sample 340, which looks at 170 degrees, nearly straight back; and it lacks
  sample 700, which looks at 350 degrees and which the scaled front sector of the
  specification contains.
\<close>

theorem sectors_not_scaled:
  "mod_indices front_indices 720 = Inr ([0..<30] @ [330..<360]) \<and>
   340 \<in> set ([0..<30] @ [330..<360]) \<and>
   bearing 720 340 = 170 \<and> \<not> in_front_window (bearing 720 340) \<and>
   700 \<notin> set ([0..<30] @ [330..<360]) \<and>
   bearing 720 700 = 350 \<and> in_front_window (bearing 720 700) \<and>
   700 \<in> set (spec_sector 720 front_indices)"
proof -
  have "mod_indices front_indices 720 = Inr (map (\<lambda>i. i mod 720) front_indices)"
    by (simp add: mod_indices_pos)
  then have code: "mod_indices front_indices 720 = Inr ([0..<30] @ [330..<360])"
    using raw_windows_unchanged(1) [of 720] by (simp add: front_indices_def del: upt_rec_numeral)
  have "spec_scaled_index 720 350 = 700"
    by (simp add: spec_scaled_index_def round_half_even_def)
  moreover have "350 \<in> set front_indices"
    unfolding front_indices_def set_append set_upt by simp
  ultimately have spec: "700 \<in> set (spec_sector 720 front_indices)"
    unfolding spec_sector_def set_map by (metis image_eqI)
  have mem: "340 \<in> set ([0..<30] @ [330..<360])" "700 \<notin> set ([0..<30] @ [330..<360])"
    unfolding set_append set_upt by simp_all
  have geo: "bearing 720 340 = 170" "\<not> in_front_window (bearing 720 340)"
    "bearing 720 700 = 350" "in_front_window (bearing 720 700)"
    by (simp_all add: bearing_def in_front_window_def)
  from code spec mem geo show ?thesis by blast
qed

end
